theory Spec2Isabelle
  imports Complex_Main
begin

section \<open>The study planner: data model\<close>

text \<open>
  The scheduler of \<^verbatim>\<open>script.js\<close> (\<^verbatim>\<open>calculateStudyPlan\<close>) and the input
  handling in front of it (\<^verbatim>\<open>validateInputs\<close>, \<^verbatim>\<open>parseSubjects\<close>,
  \<^verbatim>\<open>generateStudyPlan\<close>) are embedded as HOL functions.

  Numbers. JavaScript numbers are IEEE doubles; hours are modelled as exact rationals
  (\<^typ>\<open>rat\<close>), so every statement below is a statement about the algorithm computed with
  exact arithmetic. A value that is not a number in the source (\<^verbatim>\<open>undefined\<close>,
  \<^verbatim>\<open>NaN\<close>) is \<^term>\<open>None\<close>; the comparisons \<^verbatim>\<open>> 0\<close> and \<^verbatim>\<open><= 0\<close> are both
  false on it, as in JavaScript.

  Objects. \<^verbatim>\<open>remainingHours\<close> is a plain object (\<^verbatim>\<open>{}\<close>) used as a dictionary from
  subject names to numbers. Its own data properties are modelled as a map
  \<^typ>\<open>string \<rightharpoonup> rat\<close>; a key that was never assigned reads as \<^verbatim>\<open>undefined\<close>, and two
  equal names share one entry. One key is not a data property: \<^verbatim>\<open>__proto__\<close> is an
  accessor inherited from \<^verbatim>\<open>Object.prototype\<close>. Assigning a number to it changes nothing,
  and reading it gives the prototype object, which is not a number (\<open>js_assign\<close>,
  \<open>js_read\<close>).

  Rounding. \<^verbatim>\<open>toFixed(2)\<close> is taken on the exact rational value, not on the binary
  expansion of a double.
\<close>

record allocation =
  name :: string
  hours :: rat

record dayPlan =
  day :: nat
  subjects :: "allocation list"
  totalHours :: rat

text \<open>
  The variables that the two loops of \<^verbatim>\<open>calculateStudyPlan\<close> mutate.
  \<^verbatim>\<open>remainingHours\<close> and \<^verbatim>\<open>subjectIndex\<close> live across days;
  \<^verbatim>\<open>dailySchedule\<close> and \<^verbatim>\<open>remainingDailyHours\<close> are re-created for every day.
  \<open>exactTakes\<close> is not a variable of the program: it lists the unrounded
  \<^verbatim>\<open>hoursToAllocate\<close> of every entry pushed to \<^verbatim>\<open>dailySchedule.subjects\<close>, in
  the same order, so that properties relating recorded and exact hours can be stated.
  No computed value depends on it.
\<close>

record loop_state =
  remainingHours :: "string \<Rightarrow> rat option"
  subjectIndex :: nat
  dailySchedule :: dayPlan
  remainingDailyHours :: rat
  exactTakes :: "rat list"

text \<open>The three ways out of the inner \<^verbatim>\<open>while\<close> loop.\<close>

datatype loop_exit =
  DailyHoursSpent          \<comment> \<open>the loop condition \<^verbatim>\<open>remainingDailyHours > 0\<close> failed\<close>
| AllSubjectsExhausted     \<comment> \<open>first \<^verbatim>\<open>break\<close>: every subject has \<^verbatim>\<open>remainingHours <= 0\<close>\<close>
| SafetyValve              \<comment> \<open>second \<^verbatim>\<open>break\<close>: \<^verbatim>\<open>subjectIndex > subjects.length * totalDays * 10\<close>\<close>

text \<open>
  What one run of the inner loop (one day) did: the state it ended in, the exit it took,
  and the state after each of its iterations, in order (\<open>steps\<close> observes the run and is
  not used by it).
\<close>

record day_run =
  final :: loop_state
  exit :: loop_exit
  steps :: "loop_state list"

text \<open>
  The outer loop's state: the schedule built so far, the loop variables, and the log of
  the day runs made so far (again an observation of the run).
\<close>

record plan_run =
  schedule :: "dayPlan list"
  loopState :: loop_state
  dayRuns :: "day_run list"

section \<open>The scheduler\<close>

text \<open>
  \<^verbatim>\<open>parseFloat(x.toFixed(2))\<close>: the nearest multiple of 1/100, a tie going to the
  larger magnitude (\<^verbatim>\<open>toFixed\<close> picks the larger \<open>n\<close> on the absolute value).
\<close>

definition toFixed2 :: "rat \<Rightarrow> rat" where
  "toFixed2 x =
     (if x < 0 then - (of_int \<lfloor>(- x) * 100 + 1 / 2\<rfloor> / 100)
      else of_int \<lfloor>x * 100 + 1 / 2\<rfloor> / 100)"

definition num_gt0 :: "rat option \<Rightarrow> bool" where
  "num_gt0 v = (case v of None \<Rightarrow> False | Some r \<Rightarrow> 0 < r)"

definition num_le0 :: "rat option \<Rightarrow> bool" where
  "num_le0 v = (case v of None \<Rightarrow> False | Some r \<Rightarrow> r \<le> 0)"

text \<open>
  \<^verbatim>\<open>obj[key] = v\<close> and \<^verbatim>\<open>obj[key]\<close> (read as a number) on a plain object whose own
  data properties are \<open>obj\<close>.
\<close>

definition js_assign :: "(string \<Rightarrow> rat option) \<Rightarrow> string \<Rightarrow> rat \<Rightarrow> string \<Rightarrow> rat option" where
  "js_assign obj key v = (if key = ''__proto__'' then obj else obj(key \<mapsto> v))"

definition js_read :: "(string \<Rightarrow> rat option) \<Rightarrow> string \<Rightarrow> rat option" where
  "js_read obj key = (if key = ''__proto__'' then None else obj key)"

text \<open>\<^verbatim>\<open>remainingHours[subject]\<close>, read in the state \<open>st\<close>.\<close>

definition remainingOf :: "loop_state \<Rightarrow> string \<Rightarrow> rat option" where
  "remainingOf st subject = js_read (remainingHours st) subject"

text \<open>
  \<^verbatim>\<open>subjects[subjectIndex % subjects.length]\<close>. On the empty list the index is
  \<^verbatim>\<open>NaN\<close> and the read gives \<^verbatim>\<open>undefined\<close>, which as a property key is the string
  \<^verbatim>\<open>"undefined"\<close>.
\<close>

definition currentSubject :: "string list \<Rightarrow> nat \<Rightarrow> string" where
  "currentSubject subjs i =
     (if subjs = [] then ''undefined'' else subjs ! (i mod length subjs))"

text \<open>
  \<^verbatim>\<open>totalHours / subjects.length\<close>. On the empty list JavaScript divides by zero
  (\<^verbatim>\<open>Infinity\<close> or \<^verbatim>\<open>NaN\<close>) where HOL gives 0; the value is not used then, because
  \<^verbatim>\<open>forEach\<close> has no subject to assign it to.
\<close>

definition hoursPerSubject :: "string list \<Rightarrow> rat \<Rightarrow> nat \<Rightarrow> rat" where
  "hoursPerSubject subjs hoursPerDay totalDays =
     (hoursPerDay * of_nat totalDays) / of_nat (length subjs)"

text \<open>\<^verbatim>\<open>subjects.forEach(subject => { remainingHours[subject] = hoursPerSubject; })\<close>\<close>

definition initialHours :: "string list \<Rightarrow> rat \<Rightarrow> nat \<Rightarrow> string \<Rightarrow> rat option" where
  "initialHours subjs hoursPerDay totalDays =
     foldl (\<lambda>obj subject. js_assign obj subject (hoursPerSubject subjs hoursPerDay totalDays))
       Map.empty subjs"

text \<open>
  One iteration of the inner loop, up to and including \<^verbatim>\<open>subjectIndex++\<close>
  (lines 135 to 160).
\<close>

definition allocate :: "string \<Rightarrow> rat \<Rightarrow> loop_state \<Rightarrow> loop_state" where
  "allocate subject r st =
     (let hoursToAllocate = min (remainingDailyHours st) (min r 2)
      in st\<lparr> dailySchedule := (dailySchedule st)
                \<lparr> subjects := subjects (dailySchedule st) @
                     [\<lparr> name = subject, hours = toFixed2 hoursToAllocate \<rparr>],
                  totalHours := totalHours (dailySchedule st) + hoursToAllocate \<rparr>,
              remainingHours := js_assign (remainingHours st) subject (r - hoursToAllocate),
              remainingDailyHours := remainingDailyHours st - hoursToAllocate,
              exactTakes := exactTakes st @ [hoursToAllocate] \<rparr>)"

definition session :: "string list \<Rightarrow> loop_state \<Rightarrow> loop_state" where
  "session subjs st =
     (let subject = currentSubject subjs (subjectIndex st);
          st1 = (case remainingOf st subject of
                   None \<Rightarrow> st
                 | Some r \<Rightarrow> if 0 < r then allocate subject r st else st)
      in st1\<lparr> subjectIndex := subjectIndex st1 + 1 \<rparr>)"

text \<open>\<^verbatim>\<open>subjects.every(subject => remainingHours[subject] <= 0)\<close>\<close>

definition allSubjectsExhausted :: "string list \<Rightarrow> loop_state \<Rightarrow> bool" where
  "allSubjectsExhausted subjs st = list_all (\<lambda>subject. num_le0 (remainingOf st subject)) subjs"

definition valveLimit :: "string list \<Rightarrow> nat \<Rightarrow> nat" where
  "valveLimit subjs totalDays = length subjs * totalDays * 10"

text \<open>
  The inner \<^verbatim>\<open>while (remainingDailyHours > 0)\<close> loop. It terminates because every
  iteration advances \<^verbatim>\<open>subjectIndex\<close> and the second \<^verbatim>\<open>break\<close> bounds it.
\<close>

function fill_day :: "string list \<Rightarrow> nat \<Rightarrow> loop_state \<Rightarrow> day_run" where
  "fill_day subjs totalDays st =
     (if 0 < remainingDailyHours st then
        (let st' = session subjs st in
         if allSubjectsExhausted subjs st' then
           \<lparr> final = st', exit = AllSubjectsExhausted, steps = [st'] \<rparr>
         else if valveLimit subjs totalDays < subjectIndex st' then
           \<lparr> final = st', exit = SafetyValve, steps = [st'] \<rparr>
         else
           (let r = fill_day subjs totalDays st' in r\<lparr> steps := st' # steps r \<rparr>))
      else \<lparr> final = st, exit = DailyHoursSpent, steps = [] \<rparr>)"
  by pat_completeness auto

termination fill_day
  by (relation "measure (\<lambda>(subjs, totalDays, st). Suc (valveLimit subjs totalDays) - subjectIndex st)")
     (auto simp: session_def allocate_def Let_def split: option.splits if_splits)

declare fill_day.simps [simp del]

text \<open>The start of an outer-loop iteration: a fresh \<^verbatim>\<open>dailySchedule\<close> and daily budget.\<close>

definition start_day :: "rat \<Rightarrow> nat \<Rightarrow> loop_state \<Rightarrow> loop_state" where
  "start_day hoursPerDay d st =
     st\<lparr> dailySchedule := \<lparr> day = d, subjects = [], totalHours = 0 \<rparr>,
         remainingDailyHours := hoursPerDay,
         exactTakes := [] \<rparr>"

text \<open>
  The end of an outer-loop iteration: a day with at least one entry is pushed, its total
  rounded.
\<close>

definition push_day :: "loop_state \<Rightarrow> dayPlan list \<Rightarrow> dayPlan list" where
  "push_day st sched =
     (if subjects (dailySchedule st) \<noteq> [] then
        sched @ [(dailySchedule st)\<lparr> totalHours := toFixed2 (totalHours (dailySchedule st)) \<rparr>]
      else sched)"

text \<open>
  One iteration of the outer \<^verbatim>\<open>for\<close> loop (lines 124 to 180): day \<open>d\<close> is filled
  from the loop variables left by the day before, and pushed if it is not empty.
\<close>

definition run_day :: "string list \<Rightarrow> rat \<Rightarrow> nat \<Rightarrow> nat \<Rightarrow> plan_run \<Rightarrow> plan_run" where
  "run_day subjs hoursPerDay totalDays d R =
     (let r = fill_day subjs totalDays (start_day hoursPerDay d (loopState R))
      in \<lparr> schedule = push_day (final r) (schedule R),
           loopState = final r,
           dayRuns = dayRuns R @ [r] \<rparr>)"

text \<open>The outer loop, over the list of the days still to do.\<close>

fun for_days :: "string list \<Rightarrow> rat \<Rightarrow> nat \<Rightarrow> nat list \<Rightarrow> plan_run \<Rightarrow> plan_run" where
  "for_days subjs hoursPerDay totalDays [] R = R"
| "for_days subjs hoursPerDay totalDays (d # ds) R =
     for_days subjs hoursPerDay totalDays ds (run_day subjs hoursPerDay totalDays d R)"

definition initialState :: "string list \<Rightarrow> rat \<Rightarrow> nat \<Rightarrow> loop_state" where
  "initialState subjs hoursPerDay totalDays =
     \<lparr> remainingHours = initialHours subjs hoursPerDay totalDays,
       subjectIndex = 0,
       dailySchedule = \<lparr> day = 0, subjects = [], totalHours = 0 \<rparr>,
       remainingDailyHours = 0,
       exactTakes = [] \<rparr>"

definition runPlan :: "string list \<Rightarrow> rat \<Rightarrow> nat \<Rightarrow> plan_run" where
  "runPlan subjs hoursPerDay totalDays =
     for_days subjs hoursPerDay totalDays [1..<Suc totalDays]
       \<lparr> schedule = [], loopState = initialState subjs hoursPerDay totalDays, dayRuns = [] \<rparr>"

definition calculateStudyPlan :: "string list \<Rightarrow> rat \<Rightarrow> nat \<Rightarrow> dayPlan list" where
  "calculateStudyPlan subjs hoursPerDay totalDays = schedule (runPlan subjs hoursPerDay totalDays)"

text \<open>
  The inputs the scheduler is specified for: a non-empty list of distinct, non-empty
  subject names, \<open>0 < hoursPerDay \<le> 24\<close> and at least one day.
\<close>

definition valid_input :: "string list \<Rightarrow> rat \<Rightarrow> nat \<Rightarrow> bool" where
  "valid_input subjs hoursPerDay totalDays \<longleftrightarrow>
     subjs \<noteq> [] \<and> distinct subjs \<and> [] \<notin> set subjs \<and>
     0 < hoursPerDay \<and> hoursPerDay \<le> 24 \<and> 1 \<le> totalDays"

section \<open>Input handling\<close>

text \<open>
  \<^verbatim>\<open>validateInputs\<close> returns \<^verbatim>\<open>{ isValid: true }\<close> or
  \<^verbatim>\<open>{ isValid: false, message }\<close>; the four messages are the constructors of
  \<open>validation_message\<close>, in the order of the checks. The numbers come from
  \<^verbatim>\<open>parseFloat\<close> and \<^verbatim>\<open>parseInt\<close>, which give \<^verbatim>\<open>NaN\<close> (\<^term>\<open>None\<close>) on a
  field that does not start with a number.
\<close>

datatype validation_message =
  NoSubjects       \<comment> \<open>"Please enter at least one subject."\<close>
| InvalidHours     \<comment> \<open>"Please enter valid hours per day (greater than 0)."\<close>
| TooManyHours     \<comment> \<open>"Hours per day cannot exceed 24 hours."\<close>
| InvalidDays      \<comment> \<open>"Please enter valid number of days (greater than 0)."\<close>

datatype validation = Valid | Invalid validation_message

text \<open>\<^verbatim>\<open>!x\<close> on a number: true on \<^verbatim>\<open>NaN\<close> and on zero.\<close>

definition js_not :: "'a::zero option \<Rightarrow> bool" where
  "js_not v = (case v of None \<Rightarrow> True | Some x \<Rightarrow> x = 0)"

definition js_le0 :: "'a::{zero,ord} option \<Rightarrow> bool" where
  "js_le0 v = (case v of None \<Rightarrow> False | Some x \<Rightarrow> x \<le> 0)"

definition js_gt24 :: "rat option \<Rightarrow> bool" where
  "js_gt24 v = (case v of None \<Rightarrow> False | Some x \<Rightarrow> 24 < x)"

definition validateInputs :: "string \<Rightarrow> rat option \<Rightarrow> int option \<Rightarrow> validation" where
  "validateInputs subjectsValue hoursPerDay daysLeft =
     (if subjectsValue = [] then Invalid NoSubjects
      else if js_not hoursPerDay \<or> js_le0 hoursPerDay then Invalid InvalidHours
      else if js_gt24 hoursPerDay then Invalid TooManyHours
      else if js_not daysLeft \<or> js_le0 daysLeft then Invalid InvalidDays
      else Valid)"

text \<open>
  \<^verbatim>\<open>String.prototype.trim\<close>. A character of a \<^typ>\<open>string\<close> stands for a code unit
  below 256, and the white space among those is tab, line feed, vertical tab, form feed,
  carriage return, space and the no-break space U+00A0.
\<close>

definition is_whitespace :: "char \<Rightarrow> bool" where
  "is_whitespace c \<longleftrightarrow> c \<in> set [CHR 0x09, CHR 0x0A, CHR 0x0B, CHR 0x0C, CHR 0x0D, CHR '' '', CHR 0xA0]"

definition trim :: "string \<Rightarrow> string" where
  "trim s = rev (dropWhile is_whitespace (rev (dropWhile is_whitespace s)))"

text \<open>\<^verbatim>\<open>s.split(',')\<close>: the pieces between the commas, empty pieces included.\<close>

fun split_comma :: "string \<Rightarrow> string list" where
  "split_comma [] = [[]]"
| "split_comma (c # cs) =
     (if c = CHR '','' then [] # split_comma cs
      else (case split_comma cs of
              [] \<Rightarrow> [[c]]
            | piece # pieces \<Rightarrow> (c # piece) # pieces))"

definition parseSubjects :: "string \<Rightarrow> string list" where
  "parseSubjects subjectsString =
     filter (\<lambda>subject. 0 < length subject) (map trim (split_comma subjectsString))"

text \<open>
  \<^verbatim>\<open>generateStudyPlan\<close>, from the text of the subjects field and the two parsed
  numbers to what is handed to the presenter: \<^term>\<open>Inl\<close> is \<^verbatim>\<open>showError\<close>,
  \<^term>\<open>Inr\<close> the plan given to \<^verbatim>\<open>displayResults\<close>. After a \<^term>\<open>Valid\<close> result
  both numbers are numbers (lemma \<open>validateInputs_Valid\<close>).
\<close>

definition generateStudyPlan ::
  "string \<Rightarrow> rat option \<Rightarrow> int option \<Rightarrow> validation_message + dayPlan list" where
  "generateStudyPlan subjectsText hoursPerDay daysLeft =
     (let subjectsValue = trim subjectsText in
      case validateInputs subjectsValue hoursPerDay daysLeft of
        Invalid message \<Rightarrow> Inl message
      | Valid \<Rightarrow>
          Inr (calculateStudyPlan (parseSubjects subjectsValue)
                 (the hoursPerDay) (nat (the daysLeft))))"

section \<open>Quantities used in the proofs\<close>

text \<open>Every subject has a numeric entry, and none is negative.\<close>

definition budgets_ok :: "string list \<Rightarrow> loop_state \<Rightarrow> bool" where
  "budgets_ok subjs st \<longleftrightarrow>
     (\<forall>s\<in>set subjs. \<exists>r. remainingOf st s = Some r \<and> 0 \<le> r)"

text \<open>No subject has hours left to allocate (no entry is a number above 0).\<close>

definition spent :: "string list \<Rightarrow> loop_state \<Rightarrow> bool" where
  "spent subjs st \<longleftrightarrow> (\<forall>s\<in>set subjs. \<not> num_gt0 (remainingOf st s))"

text \<open>The hours still owed, over all subjects.\<close>

definition budget :: "string list \<Rightarrow> loop_state \<Rightarrow> rat" where
  "budget subjs st =
     sum_list (map (\<lambda>s. case remainingOf st s of None \<Rightarrow> 0 | Some r \<Rightarrow> r) subjs)"

text \<open>
  How often the cursor has stood on position \<open>p\<close> of a rotation of length \<open>n\<close> when
  \<^verbatim>\<open>subjectIndex\<close> is \<open>i\<close>.
\<close>

definition visits :: "nat \<Rightarrow> nat \<Rightarrow> nat \<Rightarrow> nat" where
  "visits n p i = length (filter (\<lambda>j. j mod n = p) [0..<i])"

text \<open>All the recorded hours of a schedule, and those of one subject.\<close>

definition recordedHours :: "dayPlan list \<Rightarrow> rat list" where
  "recordedHours sched = map hours (concat (map subjects sched))"

definition recordedHoursOf :: "string \<Rightarrow> dayPlan list \<Rightarrow> rat list" where
  "recordedHoursOf s sched = map hours (filter (\<lambda>a. name a = s) (concat (map subjects sched)))"

text \<open>
  What holds of a day run at its end: the recorded entries are the roundings of the exact
  takes, the running total and the daily budget moved by the exact takes, every take is
  positive and at most 2, and the daily budget is not negative.
\<close>

definition day_ok :: "rat \<Rightarrow> day_run \<Rightarrow> bool" where
  "day_ok h r \<longleftrightarrow>
     map hours (subjects (dailySchedule (final r))) = map toFixed2 (exactTakes (final r)) \<and>
     totalHours (dailySchedule (final r)) = sum_list (exactTakes (final r)) \<and>
     remainingDailyHours (final r) = h - sum_list (exactTakes (final r)) \<and>
     (\<forall>t\<in>set (exactTakes (final r)). 0 < t \<and> t \<le> 2) \<and>
     0 \<le> remainingDailyHours (final r)"

text \<open>
  The bound behind the iteration count. Take a subject at position \<open>p\<close> of the rotation
  that still has budget \<open>r > 0\<close>. Each earlier visit of the cursor gave it a session, and
  every such session was of 2 hours unless it used up the rest of a day; so twice the
  number of visits, plus \<open>r\<close>, is at most its initial budget plus 2 for every day ended.
\<close>

definition cursor_ok :: "string list \<Rightarrow> rat \<Rightarrow> nat \<Rightarrow> loop_state \<Rightarrow> bool" where
  "cursor_ok subjs h totalDays st \<longleftrightarrow>
     (\<forall>p<length subjs. \<forall>r. remainingOf st (subjs ! p) = Some r \<longrightarrow> 0 < r \<longrightarrow>
        2 * of_nat (visits (length subjs) p (subjectIndex st)) + r
          \<le> hoursPerSubject subjs h totalDays + 2 * of_nat (day (dailySchedule st))
              - (if 0 < remainingDailyHours st then 2 else 0))"

text \<open>
  The exact takes of a list of day runs, in order; those given to one subject (the takes
  paired with the entries that carry its name); and what a subject is still owed.
\<close>

definition allTakes :: "day_run list \<Rightarrow> rat list" where
  "allTakes rs = concat (map (\<lambda>r. exactTakes (final r)) rs)"

definition takesOf :: "string \<Rightarrow> loop_state \<Rightarrow> rat list" where
  "takesOf s st =
     map snd (filter (\<lambda>(a, t). name a = s) (zip (subjects (dailySchedule st)) (exactTakes st)))"

definition allTakesOf :: "string \<Rightarrow> day_run list \<Rightarrow> rat list" where
  "allTakesOf s rs = concat (map (\<lambda>r. takesOf s (final r)) rs)"

definition owed :: "string \<Rightarrow> loop_state \<Rightarrow> rat" where
  "owed s st = (case remainingOf st s of None \<Rightarrow> 0 | Some r \<Rightarrow> r)"

section \<open>Facts about the two loops\<close>

lemma subjectIndex_session [simp]: "subjectIndex (session subjs st) = Suc (subjectIndex st)"
  by (simp add: session_def allocate_def Let_def split: option.split)

lemma day_session [simp]: "day (dailySchedule (session subjs st)) = day (dailySchedule st)"
  by (simp add: session_def allocate_def Let_def split: option.split)

text \<open>
  A property that the loop body keeps (whenever the loop condition holds) is true of the
  state the loop ends in and of the state after each iteration.
\<close>

lemma fill_day_invariant:
  assumes "P st"
    and "\<And>s. P s \<Longrightarrow> 0 < remainingDailyHours s \<Longrightarrow> P (session subjs s)"
  shows "P (final (fill_day subjs totalDays st)) \<and>
         (\<forall>s\<in>set (steps (fill_day subjs totalDays st)). P s)"
  using assms
proof (induction subjs totalDays st rule: fill_day.induct)
  case (1 subjs totalDays st)
  show ?case
  proof (cases "0 < remainingDailyHours st")
    case False
    with "1.prems"(1) show ?thesis by (simp add: fill_day.simps [of subjs totalDays st])
  next
    case True
    define st' where "st' = session subjs st"
    have P': "P st'" unfolding st'_def using "1.prems" True by blast
    show ?thesis
    proof (cases "allSubjectsExhausted subjs st' \<or> valveLimit subjs totalDays < subjectIndex st'")
      case True
      with \<open>0 < remainingDailyHours st\<close> P' show ?thesis
        by (auto simp: fill_day.simps [of subjs totalDays st] Let_def st'_def)
    next
      case False
      then have a: "\<not> allSubjectsExhausted subjs st'"
        and b: "\<not> valveLimit subjs totalDays < subjectIndex st'"
        by auto
      have "P (final (fill_day subjs totalDays st')) \<and>
         (\<forall>s\<in>set (steps (fill_day subjs totalDays st')). P s)"
        by (rule "1.IH" [OF True st'_def a b P' "1.prems"(2)])
      with a b True P' show ?thesis
        by (simp add: fill_day.simps [of subjs totalDays st] Let_def st'_def [symmetric])
    qed
  qed
qed

lemmas fill_day_final = fill_day_invariant [THEN conjunct1]

text \<open>What each exit says about the state the loop ends in.\<close>

lemma fill_day_exit:
  "(exit (fill_day subjs totalDays st) = DailyHoursSpent \<longrightarrow>
     remainingDailyHours (final (fill_day subjs totalDays st)) \<le> 0) \<and>
   (exit (fill_day subjs totalDays st) = AllSubjectsExhausted \<longrightarrow>
     allSubjectsExhausted subjs (final (fill_day subjs totalDays st))) \<and>
   (exit (fill_day subjs totalDays st) = SafetyValve \<longrightarrow>
     \<not> allSubjectsExhausted subjs (final (fill_day subjs totalDays st)) \<and>
     valveLimit subjs totalDays < subjectIndex (final (fill_day subjs totalDays st)))"
proof (induction subjs totalDays st rule: fill_day.induct)
  case (1 subjs totalDays st)
  show ?case
  proof (cases "0 < remainingDailyHours st")
    case False
    then show ?thesis by (simp add: fill_day.simps [of subjs totalDays st])
  next
    case True
    define st' where "st' = session subjs st"
    show ?thesis
    proof (cases "allSubjectsExhausted subjs st' \<or> valveLimit subjs totalDays < subjectIndex st'")
      case True
      with \<open>0 < remainingDailyHours st\<close> show ?thesis
        by (auto simp: fill_day.simps [of subjs totalDays st] Let_def st'_def)
    next
      case False
      then have a: "\<not> allSubjectsExhausted subjs st'"
        and b: "\<not> valveLimit subjs totalDays < subjectIndex st'"
        by auto
      note IH = "1.IH" [OF True st'_def a b]
      with a b True show ?thesis
        by (simp add: fill_day.simps [of subjs totalDays st] Let_def st'_def [symmetric])
    qed
  qed
qed

text \<open>The outer loop: a property kept by every day holds at the end.\<close>

lemma for_days_invariant:
  assumes "Q R"
    and "\<And>R d. Q R \<Longrightarrow> d \<in> set ds \<Longrightarrow> Q (run_day subjs h totalDays d R)"
  shows "Q (for_days subjs h totalDays ds R)"
  using assms
proof (induction ds arbitrary: R)
  case Nil
  then show ?case by simp
next
  case (Cons d ds)
  have "Q (run_day subjs h totalDays d R)"
    using Cons.prems by simp
  then show ?case
    using Cons.IH Cons.prems(2) by simp
qed

lemma run_day_sel [simp]:
  "loopState (run_day subjs h totalDays d R) =
     final (fill_day subjs totalDays (start_day h d (loopState R)))"
  "dayRuns (run_day subjs h totalDays d R) =
     dayRuns R @ [fill_day subjs totalDays (start_day h d (loopState R))]"
  "schedule (run_day subjs h totalDays d R) =
     push_day (final (fill_day subjs totalDays (start_day h d (loopState R)))) (schedule R)"
  by (simp_all add: run_day_def Let_def)

lemma length_dayRuns_for_days:
  "length (dayRuns (for_days subjs h totalDays ds R)) = length (dayRuns R) + length ds"
  by (induction ds arbitrary: R) simp_all

text \<open>The schedule is what the day runs pushed, in order.\<close>

lemma push_day_append: "push_day st sched = sched @ push_day st []"
  by (simp add: push_day_def)

lemma schedule_runPlan:
  "schedule (runPlan subjs h totalDays) =
     concat (map (\<lambda>r. push_day (final r) []) (dayRuns (runPlan subjs h totalDays)))"
  unfolding runPlan_def
  by (rule for_days_invariant) (simp_all add: push_day_def)

text \<open>A property of every day's start state and of every day run, through the outer loop.\<close>

lemma for_days_runs:
  assumes "I (loopState R)" and "\<forall>r\<in>set (dayRuns R). P r"
    and "\<And>st d. I st \<Longrightarrow> d \<in> set ds \<Longrightarrow>
           I (final (fill_day subjs totalDays (start_day h d st))) \<and>
           P (fill_day subjs totalDays (start_day h d st))"
  shows "I (loopState (for_days subjs h totalDays ds R)) \<and>
         (\<forall>r\<in>set (dayRuns (for_days subjs h totalDays ds R)). P r)"
  by (rule for_days_invariant [where Q = "\<lambda>R. I (loopState R) \<and> (\<forall>r\<in>set (dayRuns R). P r)"])
     (use assms in auto)

text \<open>The outer loop over the days \<open>a, \<dots>, b - 1\<close>, with the day number in the invariant.\<close>

lemma for_days_upt:
  assumes "Q a R"
    and "\<And>R d. Q d R \<Longrightarrow> a \<le> d \<Longrightarrow> d < b \<Longrightarrow> Q (Suc d) (run_day subjs h totalDays d R)"
    and "a \<le> b"
  shows "Q b (for_days subjs h totalDays [a..<b] R)"
  using assms
proof (induction "b - a" arbitrary: a R)
  case 0
  then show ?case by simp
next
  case (Suc k)
  then have less: "a < b" by simp
  have step: "Q (Suc a) (run_day subjs h totalDays a R)"
    using Suc.prems(1,2) less by simp
  have "Q b (for_days subjs h totalDays [Suc a..<b] (run_day subjs h totalDays a R))"
  proof (rule Suc.hyps(1) [OF _ step])
    show "k = b - Suc a" using Suc.hyps(2) by simp
    show "Suc a \<le> b" using less by simp
    fix R' d
    assume "Q d R'" "Suc a \<le> d" "d < b"
    then show "Q (Suc d) (run_day subjs h totalDays d R')"
      using Suc.prems(2) by simp
  qed
  then show ?case
    using less by (simp add: upt_conv_Cons)
qed

lemma exit_cases:
  "exit r = DailyHoursSpent \<or> exit r = AllSubjectsExhausted \<or> exit r = SafetyValve"
  by (cases "exit r") simp_all

section \<open>Rounding\<close>

lemma toFixed2_upper: "0 \<le> x \<Longrightarrow> toFixed2 x \<le> x + 1 / 200"
proof -
  assume "0 \<le> x"
  have "of_int \<lfloor>x * 100 + 1 / 2\<rfloor> \<le> x * 100 + 1 / 2"
    by (rule of_int_floor_le)
  with \<open>0 \<le> x\<close> show ?thesis
    by (simp add: toFixed2_def field_simps)
qed

lemma toFixed2_lower: "0 \<le> x \<Longrightarrow> x - 1 / 200 \<le> toFixed2 x"
proof -
  assume "0 \<le> x"
  have "x * 100 + 1 / 2 < of_int \<lfloor>x * 100 + 1 / 2\<rfloor> + 1"
    by linarith
  with \<open>0 \<le> x\<close> show ?thesis
    by (simp add: toFixed2_def field_simps)
qed

lemma sum_toFixed2_upper:
  "\<forall>t\<in>set ts. 0 \<le> t \<Longrightarrow>
     sum_list (map toFixed2 ts) \<le> sum_list ts + of_nat (length ts) / 200"
proof (induction ts)
  case Nil
  then show ?case by simp
next
  case (Cons t ts)
  then have "toFixed2 t \<le> t + 1 / 200"
    and "sum_list (map toFixed2 ts) \<le> sum_list ts + of_nat (length ts) / 200"
    by (simp_all add: toFixed2_upper)
  then show ?case by (simp add: field_simps)
qed

lemma sum_toFixed2_lower:
  "\<forall>t\<in>set ts. 0 \<le> t \<Longrightarrow>
     sum_list ts - of_nat (length ts) / 200 \<le> sum_list (map toFixed2 ts)"
proof (induction ts)
  case Nil
  then show ?case by simp
next
  case (Cons t ts)
  then have "t - 1 / 200 \<le> toFixed2 t"
    and "sum_list ts - of_nat (length ts) / 200 \<le> sum_list (map toFixed2 ts)"
    by (simp_all add: toFixed2_lower)
  then show ?case by (simp add: field_simps)
qed

section \<open>Recorded hours and exact takes\<close>

text \<open>
  Within a day: the recorded entries are the roundings of the exact takes, the running
  total and the daily budget move by the exact takes, every take is positive and at most
  2, and the daily budget does not go below zero.
\<close>

lemma takes_session:
  assumes "map hours (subjects (dailySchedule st)) = map toFixed2 (exactTakes st) \<and>
           totalHours (dailySchedule st) = sum_list (exactTakes st) \<and>
           remainingDailyHours st = h - sum_list (exactTakes st) \<and>
           (\<forall>t\<in>set (exactTakes st). 0 < t \<and> t \<le> 2) \<and>
           0 \<le> remainingDailyHours st \<and> day (dailySchedule st) = d"
    and "0 < remainingDailyHours st"
  shows "map hours (subjects (dailySchedule (session subjs st))) =
           map toFixed2 (exactTakes (session subjs st)) \<and>
         totalHours (dailySchedule (session subjs st)) = sum_list (exactTakes (session subjs st)) \<and>
         remainingDailyHours (session subjs st) = h - sum_list (exactTakes (session subjs st)) \<and>
         (\<forall>t\<in>set (exactTakes (session subjs st)). 0 < t \<and> t \<le> 2) \<and>
         0 \<le> remainingDailyHours (session subjs st) \<and>
         day (dailySchedule (session subjs st)) = d"
  using assms
  by (auto simp: session_def allocate_def Let_def min_def split: option.split)

lemma takes_fill_day:
  assumes "0 \<le> h"
  shows "map hours (subjects (dailySchedule (final (fill_day subjs totalDays (start_day h d st))))) =
           map toFixed2 (exactTakes (final (fill_day subjs totalDays (start_day h d st)))) \<and>
         totalHours (dailySchedule (final (fill_day subjs totalDays (start_day h d st)))) =
           sum_list (exactTakes (final (fill_day subjs totalDays (start_day h d st)))) \<and>
         remainingDailyHours (final (fill_day subjs totalDays (start_day h d st))) =
           h - sum_list (exactTakes (final (fill_day subjs totalDays (start_day h d st)))) \<and>
         (\<forall>t\<in>set (exactTakes (final (fill_day subjs totalDays (start_day h d st)))). 0 < t \<and> t \<le> 2) \<and>
         0 \<le> remainingDailyHours (final (fill_day subjs totalDays (start_day h d st))) \<and>
         day (dailySchedule (final (fill_day subjs totalDays (start_day h d st)))) = d"
proof (rule fill_day_final)
  show "map hours (subjects (dailySchedule (start_day h d st))) =
          map toFixed2 (exactTakes (start_day h d st)) \<and>
        totalHours (dailySchedule (start_day h d st)) = sum_list (exactTakes (start_day h d st)) \<and>
        remainingDailyHours (start_day h d st) = h - sum_list (exactTakes (start_day h d st)) \<and>
        (\<forall>t\<in>set (exactTakes (start_day h d st)). 0 < t \<and> t \<le> 2) \<and>
        0 \<le> remainingDailyHours (start_day h d st) \<and> day (dailySchedule (start_day h d st)) = d"
    using assms by (simp add: start_day_def)
qed (rule takes_session)

lemma runPlan_day_ok:
  assumes "0 \<le> h"
  shows "\<forall>r\<in>set (dayRuns (runPlan subjs h totalDays)). day_ok h r"
proof -
  have "True \<and> (\<forall>r\<in>set (dayRuns (runPlan subjs h totalDays)). day_ok h r)"
    unfolding runPlan_def
  proof (rule for_days_runs [where I = "\<lambda>_. True"])
    fix st d
    show "True \<and> day_ok h (fill_day subjs totalDays (start_day h d st))"
      using takes_fill_day [OF assms, of subjs totalDays d st] by (simp add: day_ok_def)
  qed simp_all
  then show ?thesis by simp
qed

text \<open>Every DayPlan of the schedule comes from a day run that left a non-empty day.\<close>

lemma plan_from_run:
  assumes "p \<in> set (calculateStudyPlan subjs h totalDays)"
  shows "\<exists>r\<in>set (dayRuns (runPlan subjs h totalDays)).
           subjects (dailySchedule (final r)) \<noteq> [] \<and>
           p = (dailySchedule (final r))\<lparr>totalHours := toFixed2 (totalHours (dailySchedule (final r)))\<rparr>"
  using assms
  by (auto simp: calculateStudyPlan_def schedule_runPlan push_day_def split: if_splits)

section \<open>Concrete runs\<close>

text \<open>
  Claim C7 (scenario D). Four subjects, one hour a day, four days: the plan is Day 1 with
  A(1), Day 2 with B(1), Day 3 with C(1), Day 4 with D(1), each with total 1. The cursor is
  not reset between days: every day makes a single iteration of the inner loop, and that
  iteration leaves the cursor at 1, 2, 3 and 4, so day \<open>d\<close> starts with the cursor at
  \<open>d - 1\<close>, where the day before left it, and finds its subject at once. (Were the cursor
  reset to 0 every morning, day \<open>d\<close> would need \<open>d\<close> iterations, the first \<open>d - 1\<close> of
  them skipping the subjects already served.)
\<close>

theorem scenario_D:
  "calculateStudyPlan [''A'', ''B'', ''C'', ''D''] 1 4 =
     [\<lparr>day = 1, subjects = [\<lparr>name = ''A'', hours = 1\<rparr>], totalHours = 1\<rparr>,
      \<lparr>day = 2, subjects = [\<lparr>name = ''B'', hours = 1\<rparr>], totalHours = 1\<rparr>,
      \<lparr>day = 3, subjects = [\<lparr>name = ''C'', hours = 1\<rparr>], totalHours = 1\<rparr>,
      \<lparr>day = 4, subjects = [\<lparr>name = ''D'', hours = 1\<rparr>], totalHours = 1\<rparr>] \<and>
   map (\<lambda>r. subjectIndex (final r)) (dayRuns (runPlan [''A'', ''B'', ''C'', ''D''] 1 4)) =
     [1, 2, 3, 4] \<and>
   map (\<lambda>r. length (steps r)) (dayRuns (runPlan [''A'', ''B'', ''C'', ''D''] 1 4)) =
     [1, 1, 1, 1] \<and>
   map (\<lambda>r. map subjectIndex (steps r)) (dayRuns (runPlan [''A'', ''B'', ''C'', ''D''] 1 4)) =
     [[1], [2], [3], [4]] \<and>
   map exit (dayRuns (runPlan [''A'', ''B'', ''C'', ''D''] 1 4)) =
     [DailyHoursSpent, DailyHoursSpent, DailyHoursSpent, AllSubjectsExhausted]"
  by code_simp

text \<open>
  Claim C8 (the safety valve is never taken) fails on the code. One subject, 24 hours a
  day, one day: the limit is \<open>1 * 1 * 10 = 10\<close>, the day needs twelve sessions of two
  hours, and the eleventh iteration leaves the loop through the second \<^verbatim>\<open>break\<close> with
  two hours of the subject's budget still owed.
\<close>

theorem safety_valve_fires:
  "valid_input [''A''] 24 1 \<and>
   map exit (dayRuns (runPlan [''A''] 24 1)) = [SafetyValve] \<and>
   subjectIndex (loopState (runPlan [''A''] 24 1)) = 11 \<and>
   remainingHours (loopState (runPlan [''A''] 24 1)) ''A'' = Some 2"
  by code_simp

text \<open>
  Claim C1 (conservation) fails on the code at the same input: eleven sessions of two
  hours are recorded, 22 hours instead of 24, and the tolerance is 0.11.
\<close>

theorem conservation_fails:
  "valid_input [''A''] 24 1 \<and>
   sum_list (recordedHours (calculateStudyPlan [''A''] 24 1)) = 22 \<and>
   length (recordedHours (calculateStudyPlan [''A''] 24 1)) = 11 \<and>
   \<not> \<bar>sum_list (recordedHours (calculateStudyPlan [''A''] 24 1)) - 24 * of_nat 1\<bar>
       \<le> 1 / 100 * of_nat (length (recordedHours (calculateStudyPlan [''A''] 24 1)))"
  by code_simp

text \<open>
  Claim C2 (equal share) fails on the code at the same input: the only subject is given
  22 hours, its share is 24.
\<close>

theorem equal_share_fails:
  "valid_input [''A''] 24 1 \<and> ''A'' \<in> set [''A''] \<and>
   sum_list (recordedHoursOf ''A'' (calculateStudyPlan [''A''] 24 1)) = 22 \<and>
   \<not> \<bar>sum_list (recordedHoursOf ''A'' (calculateStudyPlan [''A''] 24 1))
         - 24 * of_nat 1 / of_nat (length [''A''])\<bar>
       \<le> 1 / 100 * of_nat (length (recordedHours (calculateStudyPlan [''A''] 24 1)))"
  by code_simp

text \<open>
  Claim C3 as stated (the day total is the rounded sum of the rounded entries) fails:
  three subjects, two hours, one day. Each entry is 2/3 recorded as 0.67; the rounded sum
  of the entries is 2.01, the recorded total is 2.
\<close>

theorem day_total_not_sum_of_rounded:
  "valid_input [''A'', ''B'', ''C''] 2 1 \<and>
   calculateStudyPlan [''A'', ''B'', ''C''] 2 1 =
     [\<lparr>day = 1,
       subjects = [\<lparr>name = ''A'', hours = 67 / 100\<rparr>, \<lparr>name = ''B'', hours = 67 / 100\<rparr>,
                   \<lparr>name = ''C'', hours = 67 / 100\<rparr>],
       totalHours = 2\<rparr>] \<and>
   toFixed2 (sum_list [67 / 100, 67 / 100, 67 / 100]) = 201 / 100 \<and>
   (201 / 100 :: rat) \<noteq> 2"
  by code_simp

text \<open>
  Claim C4 as stated (the recorded hours of a day sum to at most \<open>hoursPerDay\<close>) fails:
  three subjects, five hours, one day. Each entry is 5/3 recorded as 1.67, and the three
  entries sum to 5.01.
\<close>

theorem daily_cap_exceeded:
  "valid_input [''X'', ''Y'', ''Z''] 5 1 \<and>
   calculateStudyPlan [''X'', ''Y'', ''Z''] 5 1 =
     [\<lparr>day = 1,
       subjects = [\<lparr>name = ''X'', hours = 167 / 100\<rparr>, \<lparr>name = ''Y'', hours = 167 / 100\<rparr>,
                   \<lparr>name = ''Z'', hours = 167 / 100\<rparr>],
       totalHours = 5\<rparr>] \<and>
   sum_list [167 / 100, 167 / 100, 167 / 100] = (501 / 100 :: rat) \<and>
   \<not> (501 / 100 :: rat) \<le> 5"
  by code_simp

text \<open>
  Claim C3, amended. The total of a DayPlan is the sum of that day's exact (unrounded)
  takes, rounded once to 2 decimals; the recorded entries are the roundings of the same
  takes. It is therefore within 0.005 times (the number of entries plus one) of the sum of
  the recorded entries, and need not be the rounding of that sum.
\<close>

theorem day_total_rounds_exact_sum:
  assumes "valid_input subjs hoursPerDay totalDays"
    and "p \<in> set (calculateStudyPlan subjs hoursPerDay totalDays)"
  shows "(\<exists>r\<in>set (dayRuns (runPlan subjs hoursPerDay totalDays)).
            day p = day (dailySchedule (final r)) \<and>
            subjects p = subjects (dailySchedule (final r)) \<and>
            map hours (subjects p) = map toFixed2 (exactTakes (final r)) \<and>
            totalHours p = toFixed2 (sum_list (exactTakes (final r)))) \<and>
         \<bar>totalHours p - sum_list (map hours (subjects p))\<bar>
            \<le> (of_nat (length (subjects p)) + 1) / 200"
proof -
  have h: "0 \<le> hoursPerDay"
    using assms(1) by (simp add: valid_input_def)
  obtain r where r: "r \<in> set (dayRuns (runPlan subjs hoursPerDay totalDays))"
    and p: "p = (dailySchedule (final r))\<lparr>totalHours := toFixed2 (totalHours (dailySchedule (final r)))\<rparr>"
    using plan_from_run [OF assms(2)] by blast
  have ok: "day_ok hoursPerDay r"
    using runPlan_day_ok [OF h] r by blast
  let ?ts = "exactTakes (final r)"
  have pos: "\<forall>t\<in>set ?ts. 0 \<le> t"
    using ok by (auto simp: day_ok_def)
  have len: "length (subjects p) = length ?ts"
    using ok p by (simp add: day_ok_def) (metis length_map)
  have rec: "map hours (subjects p) = map toFixed2 ?ts"
    using ok p by (simp add: day_ok_def)
  have tot: "totalHours p = toFixed2 (sum_list ?ts)"
    using ok p by (simp add: day_ok_def)
  have s0: "0 \<le> sum_list ?ts"
    using pos by (simp add: sum_list_nonneg)
  have "\<bar>toFixed2 (sum_list ?ts) - sum_list ?ts\<bar> \<le> 1 / 200"
    using toFixed2_upper [OF s0] toFixed2_lower [OF s0] by linarith
  moreover have "\<bar>sum_list (map toFixed2 ?ts) - sum_list ?ts\<bar> \<le> of_nat (length ?ts) / 200"
    using sum_toFixed2_upper [OF pos] sum_toFixed2_lower [OF pos] by linarith
  ultimately have "\<bar>toFixed2 (sum_list ?ts) - sum_list (map toFixed2 ?ts)\<bar>
      \<le> of_nat (length ?ts) / 200 + 1 / 200"
    by linarith
  then have "\<bar>totalHours p - sum_list (map hours (subjects p))\<bar>
      \<le> (of_nat (length (subjects p)) + 1) / 200"
    unfolding tot rec len by (simp add: add_divide_distrib)
  moreover have "day p = day (dailySchedule (final r))" "subjects p = subjects (dailySchedule (final r))"
    using p by simp_all
  ultimately show ?thesis
    using r rec tot by blast
qed

theorem day_total_rounds_exact_sum_witness:
  "valid_input [''A'', ''B'', ''C''] 2 1 \<and>
   \<lparr>day = 1,
     subjects = [\<lparr>name = ''A'', hours = 67 / 100\<rparr>, \<lparr>name = ''B'', hours = 67 / 100\<rparr>,
                 \<lparr>name = ''C'', hours = 67 / 100\<rparr>],
     totalHours = 2\<rparr> \<in> set (calculateStudyPlan [''A'', ''B'', ''C''] 2 1) \<and>
   (\<exists>r\<in>set (dayRuns (runPlan [''A'', ''B'', ''C''] 2 1)).
      map toFixed2 (exactTakes (final r)) = [67 / 100, 67 / 100, 67 / 100] \<and>
      toFixed2 (sum_list (exactTakes (final r))) = 2)"
proof -
  let ?p = "\<lparr>day = 1,
     subjects = [\<lparr>name = ''A'', hours = 67 / 100\<rparr>, \<lparr>name = ''B'', hours = 67 / 100\<rparr>,
                 \<lparr>name = ''C'', hours = 67 / 100\<rparr>],
     totalHours = 2\<rparr>"
  have v: "valid_input [''A'', ''B'', ''C''] 2 1"
    by code_simp
  have m: "?p \<in> set (calculateStudyPlan [''A'', ''B'', ''C''] 2 1)"
    by code_simp
  from day_total_rounds_exact_sum [OF v m]
  obtain r where r: "r \<in> set (dayRuns (runPlan [''A'', ''B'', ''C''] 2 1))"
    and rec: "map hours (subjects ?p) = map toFixed2 (exactTakes (final r))"
    and tot: "totalHours ?p = toFixed2 (sum_list (exactTakes (final r)))"
    by blast
  have "map toFixed2 (exactTakes (final r)) = [67 / 100, 67 / 100, 67 / 100]"
    using rec by simp
  moreover have "toFixed2 (sum_list (exactTakes (final r))) = 2"
    using tot by simp
  ultimately have "map toFixed2 (exactTakes (final r)) = [67 / 100, 67 / 100, 67 / 100] \<and>
      toFixed2 (sum_list (exactTakes (final r))) = 2"
    by (rule conjI)
  then have "\<exists>r\<in>set (dayRuns (runPlan [''A'', ''B'', ''C''] 2 1)).
      map toFixed2 (exactTakes (final r)) = [67 / 100, 67 / 100, 67 / 100] \<and>
      toFixed2 (sum_list (exactTakes (final r))) = 2"
    using r by (rule bexI)
  with v m show ?thesis
    by (intro conjI)
qed

text \<open>
  Claim C4, amended. The exact takes of a day sum to at most \<open>hoursPerDay\<close>; the recorded
  (rounded) hours of a DayPlan sum to at most \<open>hoursPerDay\<close> plus 0.005 for each of its
  entries.
\<close>

theorem daily_cap_up_to_rounding:
  assumes "valid_input subjs hoursPerDay totalDays"
    and "p \<in> set (calculateStudyPlan subjs hoursPerDay totalDays)"
  shows "(\<exists>r\<in>set (dayRuns (runPlan subjs hoursPerDay totalDays)).
            day p = day (dailySchedule (final r)) \<and>
            map hours (subjects p) = map toFixed2 (exactTakes (final r)) \<and>
            sum_list (exactTakes (final r)) \<le> hoursPerDay) \<and>
         sum_list (map hours (subjects p))
            \<le> hoursPerDay + of_nat (length (subjects p)) / 200"
proof -
  have h: "0 \<le> hoursPerDay"
    using assms(1) by (simp add: valid_input_def)
  obtain r where r: "r \<in> set (dayRuns (runPlan subjs hoursPerDay totalDays))"
    and p: "p = (dailySchedule (final r))\<lparr>totalHours := toFixed2 (totalHours (dailySchedule (final r)))\<rparr>"
    using plan_from_run [OF assms(2)] by blast
  have ok: "day_ok hoursPerDay r"
    using runPlan_day_ok [OF h] r by blast
  let ?ts = "exactTakes (final r)"
  have pos: "\<forall>t\<in>set ?ts. 0 \<le> t"
    using ok by (auto simp: day_ok_def)
  have len: "length (subjects p) = length ?ts"
    using ok p by (simp add: day_ok_def) (metis length_map)
  have rec: "map hours (subjects p) = map toFixed2 ?ts"
    using ok p by (simp add: day_ok_def)
  have cap: "sum_list ?ts \<le> hoursPerDay"
    using ok by (simp add: day_ok_def)
  have "sum_list (map hours (subjects p)) \<le> hoursPerDay + of_nat (length (subjects p)) / 200"
    unfolding rec len using sum_toFixed2_upper [OF pos] cap by linarith
  moreover have "day p = day (dailySchedule (final r))"
    using p by simp
  ultimately show ?thesis
    using r rec cap by blast
qed

theorem daily_cap_up_to_rounding_witness:
  "valid_input [''X'', ''Y'', ''Z''] 5 1 \<and>
   \<lparr>day = 1,
     subjects = [\<lparr>name = ''X'', hours = 167 / 100\<rparr>, \<lparr>name = ''Y'', hours = 167 / 100\<rparr>,
                 \<lparr>name = ''Z'', hours = 167 / 100\<rparr>],
     totalHours = 5\<rparr> \<in> set (calculateStudyPlan [''X'', ''Y'', ''Z''] 5 1) \<and>
   sum_list [167 / 100, 167 / 100, 167 / 100] \<le> (5 :: rat) + of_nat 3 / 200"
proof -
  let ?p = "\<lparr>day = 1,
     subjects = [\<lparr>name = ''X'', hours = 167 / 100\<rparr>, \<lparr>name = ''Y'', hours = 167 / 100\<rparr>,
                 \<lparr>name = ''Z'', hours = 167 / 100\<rparr>],
     totalHours = 5\<rparr>"
  have v: "valid_input [''X'', ''Y'', ''Z''] 5 1"
    by code_simp
  have m: "?p \<in> set (calculateStudyPlan [''X'', ''Y'', ''Z''] 5 1)"
    by code_simp
  from daily_cap_up_to_rounding [OF v m] v m show ?thesis
    by simp
qed

section \<open>The remaining budgets\<close>

lemma js_read_assign:
  "js_read (js_assign obj key v) k =
     (if k = key \<and> key \<noteq> ''__proto__'' then Some v else js_read obj k)"
  by (simp add: js_read_def js_assign_def)

lemma js_read_foldl_assign:
  "js_read (foldl (\<lambda>obj s. js_assign obj s v) obj xs) x =
     (if x \<in> set xs \<and> x \<noteq> ''__proto__'' then Some v else js_read obj x)"
  by (induction xs arbitrary: obj) (auto simp: js_read_assign)

text \<open>
  After the initialisation every subject has its share, except a subject named
  \<^verbatim>\<open>__proto__\<close>, whose entry is not a number.
\<close>

lemma remainingOf_initialState:
  "remainingOf (initialState subjs h totalDays) s =
     (if s \<in> set subjs \<and> s \<noteq> ''__proto__'' then Some (hoursPerSubject subjs h totalDays)
      else None)"
  by (simp add: remainingOf_def initialState_def initialHours_def js_read_foldl_assign)
    (simp add: js_read_def)

lemma remainingOf_proto [simp]: "remainingOf st ''__proto__'' = None"
  by (simp add: remainingOf_def js_read_def)

lemma remainingOf_idx [simp]: "remainingOf (st\<lparr>subjectIndex := i\<rparr>) = remainingOf st"
  by (rule ext) (simp add: remainingOf_def)

lemma remainingOf_allocate:
  assumes "remainingOf st c = Some r"
  shows "remainingOf (allocate c r st) =
           (remainingOf st)(c \<mapsto> r - min (remainingDailyHours st) (min r 2))"
proof (rule ext)
  fix s
  have "c \<noteq> ''__proto__''"
    using assms by auto
  then show "remainingOf (allocate c r st) s =
      ((remainingOf st)(c \<mapsto> r - min (remainingDailyHours st) (min r 2))) s"
    by (simp add: remainingOf_def allocate_def Let_def js_read_assign)
qed

lemma allocate_sel [simp]:
  "remainingDailyHours (allocate c r st) =
     remainingDailyHours st - min (remainingDailyHours st) (min r 2)"
  "subjects (dailySchedule (allocate c r st)) =
     subjects (dailySchedule st) @
       [\<lparr>name = c, hours = toFixed2 (min (remainingDailyHours st) (min r 2))\<rparr>]"
  "exactTakes (allocate c r st) = exactTakes st @ [min (remainingDailyHours st) (min r 2)]"
  "day (dailySchedule (allocate c r st)) = day (dailySchedule st)"
  "subjectIndex (allocate c r st) = subjectIndex st"
  by (simp_all add: allocate_def Let_def)

text \<open>The two cases of an iteration.\<close>

lemma session_skip:
  "\<not> num_gt0 (remainingOf st (currentSubject subjs (subjectIndex st))) \<Longrightarrow>
     session subjs st = st\<lparr>subjectIndex := Suc (subjectIndex st)\<rparr>"
  by (auto simp: session_def num_gt0_def split: option.splits)

lemma session_allocate:
  "remainingOf st (currentSubject subjs (subjectIndex st)) = Some r \<Longrightarrow> 0 < r \<Longrightarrow>
     session subjs st =
       (allocate (currentSubject subjs (subjectIndex st)) r st)\<lparr>subjectIndex := Suc (subjectIndex st)\<rparr>"
  by (simp add: session_def)

lemma session_cases:
  obtains (skip) "\<not> num_gt0 (remainingOf st (currentSubject subjs (subjectIndex st)))"
      "session subjs st = st\<lparr>subjectIndex := Suc (subjectIndex st)\<rparr>"
    | (allocate) r where "remainingOf st (currentSubject subjs (subjectIndex st)) = Some r" "0 < r"
      "session subjs st =
         (allocate (currentSubject subjs (subjectIndex st)) r st)\<lparr>subjectIndex := Suc (subjectIndex st)\<rparr>"
proof (cases "num_gt0 (remainingOf st (currentSubject subjs (subjectIndex st)))")
  case False
  then show ?thesis using session_skip [OF False] skip by blast
next
  case True
  then obtain r where "remainingOf st (currentSubject subjs (subjectIndex st)) = Some r" "0 < r"
    by (auto simp: num_gt0_def split: option.splits)
  then show ?thesis using session_allocate allocate by blast
qed

lemma currentSubject_in_set: "subjs \<noteq> [] \<Longrightarrow> currentSubject subjs i \<in> set subjs"
  by (simp add: currentSubject_def)

lemma budgets_ok_session: "budgets_ok subjs st \<Longrightarrow> budgets_ok subjs (session subjs st)"
proof (cases rule: session_cases [of st subjs])
  case skip
  assume "budgets_ok subjs st"
  then show ?thesis by (simp add: skip(2) budgets_ok_def)
next
  case (allocate r)
  assume "budgets_ok subjs st"
  then show ?thesis
    by (auto simp: allocate(3) budgets_ok_def remainingOf_allocate [OF allocate(1)])
qed

lemma remainingDailyHours_session:
  "0 \<le> remainingDailyHours st \<Longrightarrow> 0 \<le> remainingDailyHours (session subjs st)"
  by (cases rule: session_cases [of st subjs]) auto

lemma map_upd_other: "c \<notin> set xs \<Longrightarrow> map (g(c := v)) xs = map g xs"
  by (induction xs) auto

lemma sum_list_map_upd:
  "distinct xs \<Longrightarrow> c \<in> set xs \<Longrightarrow>
     sum_list (map (g(c := v)) xs) = sum_list (map g xs) - g c + (v::rat)"
proof (induction xs)
  case Nil
  then show ?case by simp
next
  case (Cons x xs)
  show ?case
  proof (cases "x = c")
    case True
    with Cons.prems have "c \<notin> set xs" by simp
    then have eq: "map (g(c := v)) xs = map g xs"
      by (rule map_upd_other)
    have "sum_list (map (g(c := v)) (x # xs)) = v + sum_list (map (g(c := v)) xs)"
      using True by simp
    also have "\<dots> = v + sum_list (map g xs)"
      by (simp only: eq)
    also have "\<dots> = sum_list (map g (x # xs)) - g c + v"
      using True by simp
    finally show ?thesis .
  next
    case False
    with Cons show ?thesis by simp
  qed
qed

lemma budget_allocate:
  assumes "distinct subjs" and "c \<in> set subjs" and "remainingOf st c = Some r"
  shows "budget subjs (allocate c r st) = budget subjs st - min (remainingDailyHours st) (min r 2)"
proof -
  let ?g = "\<lambda>s. case remainingOf st s of None \<Rightarrow> 0 | Some r \<Rightarrow> r"
  let ?t = "min (remainingDailyHours st) (min r 2)"
  have "(\<lambda>s. case ((remainingOf st)(c \<mapsto> r - ?t)) s of None \<Rightarrow> 0 | Some r \<Rightarrow> r)
          = ?g(c := r - ?t)"
    by (rule ext) simp
  then have "budget subjs (allocate c r st) = sum_list (map (?g(c := r - ?t)) subjs)"
    by (simp add: budget_def remainingOf_allocate [OF assms(3)])
  also have "\<dots> = sum_list (map ?g subjs) - ?g c + (r - ?t)"
    by (rule sum_list_map_upd [OF assms(1,2)])
  finally show ?thesis
    using assms(3) by (simp add: budget_def)
qed

text \<open>An allocation takes the same hours from the subject's budget and from the day's.\<close>

lemma budget_session:
  assumes "distinct subjs" and "subjs \<noteq> []"
  shows "budget subjs (session subjs st) - remainingDailyHours (session subjs st) =
         budget subjs st - remainingDailyHours st"
proof -
  have c: "currentSubject subjs (subjectIndex st) \<in> set subjs"
    using assms(2) by (rule currentSubject_in_set)
  have idx: "\<And>s i. budget subjs (s\<lparr>subjectIndex := i\<rparr>) = budget subjs s"
    by (simp add: budget_def)
  show ?thesis
  proof (cases rule: session_cases [of st subjs])
    case skip
    then show ?thesis by (simp add: idx)
  next
    case (allocate r)
    with budget_allocate [OF assms(1) c allocate(1)] show ?thesis
      by (simp add: idx)
  qed
qed

text \<open>Once no subject has hours left, an iteration allocates nothing.\<close>

lemma spent_session:
  assumes "subjs \<noteq> []" and "spent subjs st"
  shows "session subjs st = st\<lparr>subjectIndex := Suc (subjectIndex st)\<rparr>"
proof (rule session_skip)
  show "\<not> num_gt0 (remainingOf st (currentSubject subjs (subjectIndex st)))"
    using assms currentSubject_in_set [OF assms(1)] by (simp add: spent_def)
qed

lemma spent_idx [simp]: "spent subjs (st\<lparr>subjectIndex := i\<rparr>) = spent subjs st"
  by (simp add: spent_def)

lemma exhausted_idx [simp]:
  "allSubjectsExhausted subjs (st\<lparr>subjectIndex := i\<rparr>) = allSubjectsExhausted subjs st"
  by (simp add: allSubjectsExhausted_def)

lemma exhausted_spent: "allSubjectsExhausted subjs st \<Longrightarrow> spent subjs st"
  by (auto simp: allSubjectsExhausted_def spent_def list_all_iff num_le0_def num_gt0_def
      split: option.splits)

lemma spent_exhausted:
  "budgets_ok subjs st \<Longrightarrow> spent subjs st \<Longrightarrow> allSubjectsExhausted subjs st"
  by (fastforce simp: allSubjectsExhausted_def spent_def budgets_ok_def list_all_iff
      num_le0_def num_gt0_def)

lemma exhausted_zero:
  assumes "budgets_ok subjs st" and "allSubjectsExhausted subjs st" and "s \<in> set subjs"
  shows "remainingOf st s = Some 0"
proof -
  obtain r where "remainingOf st s = Some r" "0 \<le> r"
    using assms(1,3) by (auto simp: budgets_ok_def)
  moreover have "num_le0 (remainingOf st s)"
    using assms(2,3) by (simp add: allSubjectsExhausted_def list_all_iff)
  ultimately show ?thesis by (simp add: num_le0_def)
qed

lemma budget_zero:
  assumes "budgets_ok subjs st" and "budget subjs st = 0" and "s \<in> set subjs"
  shows "remainingOf st s = Some 0"
proof -
  let ?g = "\<lambda>s. case remainingOf st s of None \<Rightarrow> 0 | Some r \<Rightarrow> r"
  have nn: "\<And>x. x \<in> set subjs \<Longrightarrow> 0 \<le> ?g x"
    using assms(1) by (auto simp: budgets_ok_def)
  have "\<forall>x\<in>set (map ?g subjs). x = 0"
    using assms(2) nn by (subst sum_list_nonneg_eq_0_iff [symmetric]) (auto simp: budget_def)
  then have "?g s = 0" using assms(3) by simp
  then show ?thesis
    using assms(1,3) by (auto simp: budgets_ok_def)
qed

lemma budget_initialState:
  assumes "''__proto__'' \<notin> set subjs"
  shows "budget subjs (initialState subjs h totalDays) =
     of_nat (length subjs) * hoursPerSubject subjs h totalDays"
proof -
  have "map (\<lambda>s. case remainingOf (initialState subjs h totalDays) s of None \<Rightarrow> 0 | Some r \<Rightarrow> r) subjs
          = map (\<lambda>s. hoursPerSubject subjs h totalDays) subjs"
    using assms by (intro map_cong) (auto simp: remainingOf_initialState)
  then have "budget subjs (initialState subjs h totalDays) =
      sum_list (map (\<lambda>s. hoursPerSubject subjs h totalDays) subjs)"
    by (simp only: budget_def)
  then show ?thesis
    by (simp add: sum_list_triv)
qed

lemma budgets_ok_initialState:
  "0 \<le> h \<Longrightarrow> ''__proto__'' \<notin> set subjs \<Longrightarrow> budgets_ok subjs (initialState subjs h totalDays)"
  by (auto simp: budgets_ok_def remainingOf_initialState hoursPerSubject_def)

lemma start_day_sel [simp]:
  "remainingHours (start_day h d st) = remainingHours st"
  "remainingOf (start_day h d st) = remainingOf st"
  "subjectIndex (start_day h d st) = subjectIndex st"
  "remainingDailyHours (start_day h d st) = h"
  "dailySchedule (start_day h d st) = \<lparr>day = d, subjects = [], totalHours = 0\<rparr>"
  "exactTakes (start_day h d st) = []"
  by (simp_all add: start_day_def remainingOf_def fun_eq_iff)

lemma start_day_preserves [simp]:
  "budgets_ok subjs (start_day h d st) = budgets_ok subjs st"
  "budget subjs (start_day h d st) = budget subjs st"
  "allSubjectsExhausted subjs (start_day h d st) = allSubjectsExhausted subjs st"
  "spent subjs (start_day h d st) = spent subjs st"
  by (simp_all add: budgets_ok_def budget_def allSubjectsExhausted_def spent_def)

text \<open>One day, seen from the budgets.\<close>

lemma budget_fill_day:
  fixes totalDays d :: nat
  assumes "distinct subjs" and "subjs \<noteq> []" and "0 \<le> h" and "budgets_ok subjs st"
  defines "r \<equiv> fill_day subjs totalDays (start_day h d st)"
  shows "budgets_ok subjs (final r)"
    and "\<forall>s\<in>set (steps r). budgets_ok subjs s"
    and "0 \<le> remainingDailyHours (final r)"
    and "budget subjs (final r) - remainingDailyHours (final r) = budget subjs st - h"
    and "allSubjectsExhausted subjs st \<Longrightarrow> allSubjectsExhausted subjs (final r)"
proof -
  let ?P = "\<lambda>s. budgets_ok subjs s \<and> 0 \<le> remainingDailyHours s \<and>
      budget subjs s - remainingDailyHours s = budget subjs st - h \<and>
      (allSubjectsExhausted subjs st \<longrightarrow> allSubjectsExhausted subjs s)"
  have "?P (final r) \<and> (\<forall>s\<in>set (steps r). ?P s)"
    unfolding r_def
  proof (rule fill_day_invariant)
    show "?P (start_day h d st)"
      using assms(3,4) by simp
  next
    fix s
    assume s: "?P s" "0 < remainingDailyHours s"
    have "allSubjectsExhausted subjs s \<Longrightarrow> allSubjectsExhausted subjs (session subjs s)"
      by (simp add: spent_session [OF assms(2) exhausted_spent])
    with s show "?P (session subjs s)"
      by (simp add: budgets_ok_session remainingDailyHours_session budget_session [OF assms(1,2)])
  qed
  then show "budgets_ok subjs (final r)"
    and "\<forall>s\<in>set (steps r). budgets_ok subjs s"
    and "0 \<le> remainingDailyHours (final r)"
    and "budget subjs (final r) - remainingDailyHours (final r) = budget subjs st - h"
    and "allSubjectsExhausted subjs st \<Longrightarrow> allSubjectsExhausted subjs (final r)"
    by auto
qed

text \<open>The whole run, seen from the budgets, when no subject is named \<^verbatim>\<open>__proto__\<close>.\<close>

lemma budget_run:
  fixes totalDays :: nat
  assumes "distinct subjs" and "subjs \<noteq> []" and "0 \<le> h" and "''__proto__'' \<notin> set subjs"
  defines "H \<equiv> budget subjs (initialState subjs h totalDays)"
  defines "Q \<equiv> \<lambda>d R. budgets_ok subjs (loopState R) \<and>
      (\<forall>r\<in>set (dayRuns R). \<forall>s\<in>set (steps r). budgets_ok subjs s) \<and>
      ((\<forall>r\<in>set (dayRuns R). exit r \<noteq> SafetyValve) \<longrightarrow>
         allSubjectsExhausted subjs (loopState R) \<or>
         budget subjs (loopState R) + h * of_nat d = H + h)"
  shows "Q (Suc totalDays) (runPlan subjs h totalDays)"
  unfolding runPlan_def
proof (rule for_days_upt)
  show "Q 1 \<lparr>schedule = [], loopState = initialState subjs h totalDays, dayRuns = []\<rparr>"
    using assms(3,4) by (simp add: Q_def H_def budgets_ok_initialState)
next
  show "1 \<le> Suc totalDays" by simp
next
  fix R d
  assume Q: "Q d R"
  let ?st = "loopState R"
  let ?r = "fill_day subjs totalDays (start_day h d ?st)"
  have ok: "budgets_ok subjs ?st"
    using Q by (simp add: Q_def)
  note day = budget_fill_day [OF assms(1,2,3) ok, of totalDays d]
  have nv: "allSubjectsExhausted subjs (final ?r) \<or>
            budget subjs (final ?r) + h * of_nat (Suc d) = H + h"
    if nov: "\<forall>r\<in>set (dayRuns R @ [?r]). exit r \<noteq> SafetyValve"
  proof -
    from nov Q have before: "allSubjectsExhausted subjs ?st \<or> budget subjs ?st + h * of_nat d = H + h"
      by (simp add: Q_def)
    from nov have e: "exit ?r \<noteq> SafetyValve" by simp
    show ?thesis
    proof (cases "allSubjectsExhausted subjs ?st \<or> exit ?r = AllSubjectsExhausted")
      case True
      then show ?thesis
        using day(5) fill_day_exit [of subjs totalDays "start_day h d ?st"] by blast
    next
      case False
      with e exit_cases [of ?r] have "exit ?r = DailyHoursSpent" by blast
      then have "remainingDailyHours (final ?r) \<le> 0"
        using fill_day_exit [of subjs totalDays "start_day h d ?st"] by blast
      with day(3) have "remainingDailyHours (final ?r) = 0" by simp
      with day(4) have "budget subjs (final ?r) = budget subjs ?st - h" by simp
      moreover from False before have "budget subjs ?st + h * of_nat d = H + h" by blast
      ultimately show ?thesis by (simp add: algebra_simps)
    qed
  qed
  show "Q (Suc d) (run_day subjs h totalDays d R)"
    unfolding Q_def
  proof (intro conjI impI)
    show "budgets_ok subjs (loopState (run_day subjs h totalDays d R))"
      using day(1) by simp
    show "\<forall>r\<in>set (dayRuns (run_day subjs h totalDays d R)). \<forall>s\<in>set (steps r). budgets_ok subjs s"
      using day(2) Q by (simp add: Q_def)
    assume "\<forall>r\<in>set (dayRuns (run_day subjs h totalDays d R)). exit r \<noteq> SafetyValve"
    then show "allSubjectsExhausted subjs (loopState (run_day subjs h totalDays d R)) \<or>
        budget subjs (loopState (run_day subjs h totalDays d R)) + h * of_nat (Suc d) = H + h"
      using nv by simp
  qed
qed

lemma budgets_used_up:
  fixes totalDays :: nat
  assumes "distinct subjs" and "subjs \<noteq> []" and "0 \<le> h" and "''__proto__'' \<notin> set subjs"
    and "\<forall>r\<in>set (dayRuns (runPlan subjs h totalDays)). exit r \<noteq> SafetyValve"
  shows "\<forall>s\<in>set subjs. remainingOf (loopState (runPlan subjs h totalDays)) s = Some 0"
proof -
  let ?R = "runPlan subjs h totalDays"
  let ?H = "budget subjs (initialState subjs h totalDays)"
  note run = budget_run [OF assms(1,2,3,4), of totalDays]
  have ok: "budgets_ok subjs (loopState ?R)"
    and nov: "allSubjectsExhausted subjs (loopState ?R) \<or>
        budget subjs (loopState ?R) + h * of_nat (Suc totalDays) = ?H + h"
    using run assms(5) by blast+
  have H: "?H = h * of_nat totalDays"
    using assms(2) by (simp add: budget_initialState [OF assms(4)] hoursPerSubject_def)
  show ?thesis
  proof (cases "allSubjectsExhausted subjs (loopState ?R)")
    case True
    then show ?thesis using exhausted_zero [OF ok] by blast
  next
    case False
    with nov H have "budget subjs (loopState ?R) = 0"
      by (simp add: algebra_simps)
    then show ?thesis using budget_zero [OF ok] by blast
  qed
qed

text \<open>
  The budget invariant of claim C5 holds on every valid input none of whose subjects is
  named \<^verbatim>\<open>__proto__\<close>: every subject's entry is a number that is at least 0, initially
  and after every iteration of the inner loop on every day, and if no day's loop was left
  through the safety-valve \<^verbatim>\<open>break\<close>, every entry is exactly 0 at the end.
\<close>

lemma budget_invariant_ordinary_names:
  assumes "valid_input subjs hoursPerDay totalDays" and "''__proto__'' \<notin> set subjs"
  shows "(\<forall>s\<in>set subjs. \<exists>v. remainingOf (initialState subjs hoursPerDay totalDays) s = Some v \<and> 0 \<le> v) \<and>
         (\<forall>r\<in>set (dayRuns (runPlan subjs hoursPerDay totalDays)). \<forall>st\<in>set (steps r).
            \<forall>s\<in>set subjs. \<exists>v. remainingOf st s = Some v \<and> 0 \<le> v) \<and>
         ((\<forall>r\<in>set (dayRuns (runPlan subjs hoursPerDay totalDays)). exit r \<noteq> SafetyValve) \<longrightarrow>
            (\<forall>s\<in>set subjs. remainingOf (loopState (runPlan subjs hoursPerDay totalDays)) s = Some 0))"
proof -
  have d: "distinct subjs" and ne: "subjs \<noteq> []" and h: "0 \<le> hoursPerDay"
    using assms by (simp_all add: valid_input_def)
  let ?R = "runPlan subjs hoursPerDay totalDays"
  have steps: "\<forall>r\<in>set (dayRuns ?R). \<forall>s\<in>set (steps r). budgets_ok subjs s"
    using budget_run [OF d ne h assms(2), of totalDays] by blast
  have init: "budgets_ok subjs (initialState subjs hoursPerDay totalDays)"
    using h assms(2) by (rule budgets_ok_initialState)
  from init steps budgets_used_up [OF d ne h assms(2), of totalDays] show ?thesis
    unfolding budgets_ok_def by blast
qed

text \<open>
  Claim C5 (every subject's remaining-hours entry stays at least 0) fails on the code for
  a subject named \<^verbatim>\<open>__proto__\<close>. The input is valid, but the initialisation
  \<^verbatim>\<open>remainingHours[subject] = hoursPerSubject\<close> stores nothing under that name, so the
  entry is not a number, at the start and after each of the eleven iterations of the only
  day: the subject is never given a session, the loop is left through the safety-valve
  \<^verbatim>\<open>break\<close>, and the schedule is empty.
\<close>

theorem budget_entry_not_a_number:
  "valid_input [''__proto__''] 2 1 \<and>
   remainingHours (initialState [''__proto__''] 2 1) ''__proto__'' = None \<and>
   remainingOf (initialState [''__proto__''] 2 1) ''__proto__'' = None \<and>
   map (\<lambda>r. map (\<lambda>st. remainingOf st ''__proto__'') (steps r))
     (dayRuns (runPlan [''__proto__''] 2 1)) = [replicate 11 None] \<and>
   map exit (dayRuns (runPlan [''__proto__''] 2 1)) = [SafetyValve] \<and>
   calculateStudyPlan [''__proto__''] 2 1 = []"
  by code_simp

section \<open>How far the cursor can get\<close>

lemma visits_Suc: "visits n p (Suc i) = visits n p i + (if i mod n = p then 1 else 0)"
  by (simp add: visits_def)

lemma visits_eq:
  "0 < n \<Longrightarrow> p < n \<Longrightarrow> visits n p i = i div n + (if p < i mod n then 1 else 0)"
proof (induction i)
  case 0
  then show ?case by (simp add: visits_def)
next
  case (Suc i)
  then have IH: "visits n p i = i div n + (if p < i mod n then 1 else 0)" by simp
  have m: "i mod n < n" using Suc.prems(1) by simp
  show ?case
  proof (cases "Suc (i mod n) = n")
    case True
    then have "Suc i mod n = 0" "Suc i div n = Suc (i div n)"
      by (simp_all add: mod_Suc div_Suc)
    with True IH Suc.prems show ?thesis
      by (auto simp: visits_Suc)
  next
    case False
    then have "Suc i mod n = Suc (i mod n)" "Suc i div n = i div n"
      by (simp_all add: mod_Suc div_Suc)
    with IH show ?thesis
      by (auto simp: visits_Suc)
  qed
qed

lemma div_le_visits: "0 < n \<Longrightarrow> p < n \<Longrightarrow> i div n \<le> visits n p i"
  by (simp add: visits_eq)

lemma cursor_ok_session:
  assumes dist: "distinct subjs" and ne: "subjs \<noteq> []"
    and ok: "cursor_ok subjs h totalDays st" and rd: "0 < remainingDailyHours st"
  shows "cursor_ok subjs h totalDays (session subjs st)"
  unfolding cursor_ok_def
proof (intro allI impI)
  fix p r'
  assume p: "p < length subjs"
    and r': "remainingOf (session subjs st) (subjs ! p) = Some r'" and pos: "0 < r'"
  let ?n = "length subjs"
  let ?i = "subjectIndex st"
  let ?q = "?i mod ?n"
  let ?c = "currentSubject subjs ?i"
  let ?B = "hoursPerSubject subjs h totalDays"
  let ?d = "day (dailySchedule st)"
  have c: "?c = subjs ! ?q"
    using ne by (simp add: currentSubject_def)
  have q: "?q < ?n" using ne by simp
  have other: "subjs ! p \<noteq> ?c" if "p \<noteq> ?q"
    using that dist p q by (simp add: c nth_eq_iff_index_eq)
  have old: "2 * of_nat (visits ?n p ?i) + x \<le> ?B + 2 * of_nat ?d - 2"
    if "remainingOf st (subjs ! p) = Some x" "0 < x" for x
    using ok p that rd by (simp add: cursor_ok_def)
  show "2 * of_nat (visits ?n p (subjectIndex (session subjs st))) + r'
          \<le> ?B + 2 * of_nat (day (dailySchedule (session subjs st)))
              - (if 0 < remainingDailyHours (session subjs st) then 2 else 0)"
  proof (cases "num_gt0 (remainingOf st ?c)")
    case False
    note s = session_skip [OF False]
    from r' have r0: "remainingOf st (subjs ! p) = Some r'"
      by (simp add: s)
    with False pos have "subjs ! p \<noteq> ?c"
      by (auto simp: num_gt0_def)
    then have "p \<noteq> ?q" by (auto simp: c)
    then have "visits ?n p (Suc ?i) = visits ?n p ?i"
      by (simp add: visits_Suc)
    with old [OF r0 pos] rd show ?thesis
      by (simp add: s)
  next
    case True
    then obtain r where r: "remainingOf st ?c = Some r" and rpos: "0 < r"
      by (auto simp: num_gt0_def split: option.splits)
    let ?t = "min (remainingDailyHours st) (min r 2)"
    note s = session_allocate [OF r rpos]
    have rem: "remainingOf (session subjs st) = (remainingOf st)(?c \<mapsto> r - ?t)"
      and rd': "remainingDailyHours (session subjs st) = remainingDailyHours st - ?t"
      and day': "day (dailySchedule (session subjs st)) = ?d"
      and idx': "subjectIndex (session subjs st) = Suc ?i"
      by (simp_all add: s remainingOf_allocate [OF r])
    show ?thesis
    proof (cases "p = ?q")
      case False
      from r' other [OF False] have r0: "remainingOf st (subjs ! p) = Some r'"
        by (simp add: rem)
      from False have "visits ?n p (Suc ?i) = visits ?n p ?i"
        by (simp add: visits_Suc)
      with old [OF r0 pos] show ?thesis
        unfolding rd' day' idx' by simp
    next
      case True
      then have pc: "subjs ! p = ?c" by (simp add: c)
      from r' have r'_eq: "r' = r - ?t"
        by (simp add: rem pc)
      from True have v: "visits ?n p (Suc ?i) = visits ?n p ?i + 1"
        by (simp add: visits_Suc)
      from r pc have "remainingOf st (subjs ! p) = Some r" by simp
      note o = old [OF this rpos]
      from pos r'_eq have lt: "?t < r" by simp
      show ?thesis
      proof (cases "2 \<le> remainingDailyHours st")
        case True
        with lt have t: "?t = 2" by (auto simp: min_def split: if_splits)
        from o show ?thesis
          unfolding rd' day' idx' v r'_eq t by (simp add: algebra_simps)
      next
        case False
        with lt have t: "?t = remainingDailyHours st" by (auto simp: min_def split: if_splits)
        from o rd show ?thesis
          unfolding rd' day' idx' v r'_eq t by (simp add: algebra_simps)
      qed
    qed
  qed
qed

lemma cursor_ok_initialState:
  "cursor_ok subjs h totalDays (initialState subjs h totalDays)"
proof -
  have "subjectIndex (initialState subjs h totalDays) = 0"
    and "remainingDailyHours (initialState subjs h totalDays) = 0"
    by (simp_all add: initialState_def)
  then show ?thesis
    by (auto simp: cursor_ok_def remainingOf_initialState visits_def)
qed

lemma cursor_ok_start_day:
  assumes "cursor_ok subjs h totalDays st" and "day (dailySchedule st) < d"
  shows "cursor_ok subjs h totalDays (start_day h d st)"
  unfolding cursor_ok_def
proof (intro allI impI)
  fix p r
  assume p: "p < length subjs" and r: "remainingOf (start_day h d st) (subjs ! p) = Some r"
    and pos: "0 < r"
  let ?v = "2 * of_nat (visits (length subjs) p (subjectIndex st)) + r"
  let ?B = "hoursPerSubject subjs h totalDays"
  have "?v \<le> ?B + 2 * of_nat (day (dailySchedule st))
              - (if 0 < remainingDailyHours st then 2 else 0)"
    using assms(1) p r pos by (simp add: cursor_ok_def)
  then have "?v \<le> ?B + 2 * of_nat (day (dailySchedule st))"
    by (simp split: if_splits)
  moreover have "(of_nat (Suc (day (dailySchedule st))) :: rat) \<le> of_nat d"
    using assms(2) unfolding of_nat_le_iff by simp
  then have "(of_nat (day (dailySchedule st)) :: rat) + 1 \<le> of_nat d"
    by simp
  ultimately have "?v \<le> ?B + 2 * of_nat d - 2"
    by linarith
  then show "2 * of_nat (visits (length subjs) p (subjectIndex (start_day h d st))) + r
      \<le> ?B + 2 * of_nat (day (dailySchedule (start_day h d st)))
          - (if 0 < remainingDailyHours (start_day h d st) then 2 else 0)"
    by simp
qed

lemma idx_fill_day:
  "subjectIndex st \<le> subjectIndex (final (fill_day subjs totalDays st)) \<and>
   (exit (fill_day subjs totalDays st) \<noteq> DailyHoursSpent \<longrightarrow>
      subjectIndex st < subjectIndex (final (fill_day subjs totalDays st)))"
proof (induction subjs totalDays st rule: fill_day.induct)
  case (1 subjs totalDays st)
  show ?case
  proof (cases "0 < remainingDailyHours st")
    case False
    then show ?thesis by (simp add: fill_day.simps [of subjs totalDays st])
  next
    case True
    define st' where "st' = session subjs st"
    have i: "subjectIndex st' = Suc (subjectIndex st)" by (simp add: st'_def)
    show ?thesis
    proof (cases "allSubjectsExhausted subjs st' \<or> valveLimit subjs totalDays < subjectIndex st'")
      case True
      with \<open>0 < remainingDailyHours st\<close> show ?thesis
        by (auto simp: fill_day.simps [of subjs totalDays st] Let_def st'_def)
    next
      case False
      then have a: "\<not> allSubjectsExhausted subjs st'"
        and b: "\<not> valveLimit subjs totalDays < subjectIndex st'"
        by auto
      from "1.IH" [OF True st'_def a b] i
      have "subjectIndex st < subjectIndex (final (fill_day subjs totalDays st'))"
        by simp
      with a b True show ?thesis
        by (simp add: fill_day.simps [of subjs totalDays st] Let_def st'_def [symmetric])
    qed
  qed
qed

text \<open>One day, seen from the cursor.\<close>

lemma cursor_fill_day:
  fixes totalDays d :: nat
  assumes "distinct subjs" and "subjs \<noteq> []"
    and "cursor_ok subjs h totalDays st"
    and "day (dailySchedule st) < d"
  defines "r \<equiv> fill_day subjs totalDays (start_day h d st)"
  shows "cursor_ok subjs h totalDays (final r)"
    and "day (dailySchedule (final r)) = d"
proof -
  let ?P = "\<lambda>s. cursor_ok subjs h totalDays s \<and> day (dailySchedule s) = d"
  have "?P (final r)"
    unfolding r_def
  proof (rule fill_day_final)
    show "?P (start_day h d st)"
      using cursor_ok_start_day [OF assms(3,4)] by simp
  next
    fix s
    assume "?P s" "0 < remainingDailyHours s"
    then show "?P (session subjs s)"
      by (simp add: cursor_ok_session [OF assms(1,2)])
  qed
  then show "cursor_ok subjs h totalDays (final r)"
    and "day (dailySchedule (final r)) = d"
    by auto
qed

text \<open>
  A state in which some subject still has hours to allocate, on a day \<open>d \<le> totalDays\<close>,
  with at most 18 hours a day for each subject: the cursor is within the limit of the
  safety valve.
\<close>

lemma cursor_within_limit:
  assumes ne: "subjs \<noteq> []" and cur: "cursor_ok subjs h totalDays st"
    and d: "day (dailySchedule st) \<le> totalDays"
    and h: "h \<le> 18 * of_nat (length subjs)"
    and live: "\<not> spent subjs st"
  shows "subjectIndex st \<le> valveLimit subjs totalDays"
proof -
  let ?n = "length subjs"
  let ?i = "subjectIndex st"
  from ne have n: "0 < ?n" by simp
  from live obtain s where s: "s \<in> set subjs" and "num_gt0 (remainingOf st s)"
    by (auto simp: spent_def)
  then obtain v where v: "remainingOf st s = Some v" and vpos: "0 < v"
    by (auto simp: num_gt0_def split: option.splits)
  from s obtain p where p: "p < ?n" and sp: "subjs ! p = s"
    by (auto simp: in_set_conv_nth)
  have "2 * of_nat (visits ?n p ?i) + v
          \<le> hoursPerSubject subjs h totalDays + 2 * of_nat (day (dailySchedule st))
              - (if 0 < remainingDailyHours st then 2 else 0)"
    using cur p v vpos sp by (simp add: cursor_ok_def)
  then have 1: "2 * of_nat (visits ?n p ?i) < hoursPerSubject subjs h totalDays
      + 2 * (of_nat (day (dailySchedule st)) :: rat)"
    using vpos by (simp split: if_splits)
  have "(of_nat (?i div ?n) :: rat) \<le> of_nat (visits ?n p ?i)"
    unfolding of_nat_le_iff by (rule div_le_visits [OF n p])
  with 1 have 2: "2 * of_nat (?i div ?n) < hoursPerSubject subjs h totalDays
      + 2 * (of_nat (day (dailySchedule st)) :: rat)"
    by linarith
  have 3: "(of_nat (day (dailySchedule st)) :: rat) \<le> of_nat totalDays"
    unfolding of_nat_le_iff by (rule d)
  have "h * of_nat totalDays \<le> 18 * of_nat ?n * of_nat totalDays"
    using h by (intro mult_right_mono) simp_all
  then have 4: "hoursPerSubject subjs h totalDays \<le> 18 * of_nat totalDays"
    using n by (simp add: hoursPerSubject_def pos_divide_le_eq algebra_simps)
  from 2 3 4 have "(of_nat (?i div ?n) :: rat) < of_nat (10 * totalDays)"
    by simp
  then have "?i div ?n < 10 * totalDays"
    unfolding of_nat_less_iff .
  then have "?i < 10 * totalDays * ?n"
    using n by (simp add: div_less_iff_less_mult)
  then show ?thesis
    by (simp add: valveLimit_def algebra_simps)
qed

text \<open>A day that starts with no subject having hours left stays empty.\<close>

lemma dead_day:
  assumes "subjs \<noteq> []" and "spent subjs st"
  shows "spent subjs (final (fill_day subjs totalDays (start_day h d st))) \<and>
         subjects (dailySchedule (final (fill_day subjs totalDays (start_day h d st)))) = []"
proof (rule fill_day_final)
  show "spent subjs (start_day h d st) \<and>
        subjects (dailySchedule (start_day h d st)) = []"
    using assms(2) by simp
next
  fix s
  assume "spent subjs s \<and> subjects (dailySchedule s) = []"
  then show "spent subjs (session subjs s) \<and>
             subjects (dailySchedule (session subjs s)) = []"
    by (simp add: spent_session [OF assms(1)])
qed

text \<open>With a single subject, a day that stays empty has found nothing to allocate.\<close>

lemma single_subject_empty:
  fixes totalDays :: nat and start :: loop_state
  assumes one: "length subjs = 1"
  defines "r \<equiv> fill_day subjs totalDays start"
  assumes ex: "exit r \<noteq> DailyHoursSpent" and empty: "subjects (dailySchedule (final r)) = []"
  shows "spent subjs (final r)"
proof -
  let ?P = "\<lambda>s. subjectIndex s = subjectIndex start \<or>
       (subjects (dailySchedule s) = [] \<longrightarrow> spent subjs s)"
  from one obtain c where subjs: "subjs = [c]"
    by (cases subjs) simp_all
  have "?P (final r)"
    unfolding r_def
  proof (rule fill_day_final)
    show "?P start" by simp
  next
    fix s
    assume s: "?P s" "0 < remainingDailyHours s"
    have c: "currentSubject [c] i = c" for i
      by (simp add: currentSubject_def)
    have "spent subjs (session subjs s)"
      if "subjects (dailySchedule (session subjs s)) = []"
    proof (cases rule: session_cases [of s subjs])
      case skip
      then show ?thesis by (simp add: spent_def subjs c)
    next
      case (allocate r)
      with that show ?thesis by simp
    qed
    then show "?P (session subjs s)" by simp
  qed
  moreover have "subjectIndex start < subjectIndex (final r)"
    using idx_fill_day [of start subjs totalDays] ex by (simp add: r_def)
  ultimately show ?thesis
    using empty by simp
qed

text \<open>
  With at most 18 hours a day for each subject, the safety valve is taken only when no
  subject has hours left to allocate.
\<close>

lemma valve_only_when_spent:
  fixes totalDays d :: nat
  assumes "distinct subjs" and "subjs \<noteq> []" and "h \<le> 18 * of_nat (length subjs)"
    and "cursor_ok subjs h totalDays st"
    and "day (dailySchedule st) < d" and "d \<le> totalDays"
  defines "r \<equiv> fill_day subjs totalDays (start_day h d st)"
  assumes valve: "exit r = SafetyValve"
  shows "spent subjs (final r)"
proof (rule ccontr)
  assume live: "\<not> spent subjs (final r)"
  note day = cursor_fill_day [OF assms(1,2,4,5), folded r_def]
  have "subjectIndex (final r) \<le> valveLimit subjs totalDays"
    using cursor_within_limit [OF assms(2) day(1) _ assms(3) live] day(2) assms(6) by simp
  moreover have "valveLimit subjs totalDays < subjectIndex (final r)"
    using valve fill_day_exit [of subjs totalDays "start_day h d st"] by (simp add: r_def)
  ultimately show False by simp
qed

text \<open>On a valid input a day that stays empty ends with no subject having hours left.\<close>

lemma empty_day_spent:
  fixes totalDays d :: nat
  assumes "distinct subjs" and "subjs \<noteq> []" and "0 < h" and "h \<le> 24"
    and "cursor_ok subjs h totalDays st"
    and "day (dailySchedule st) < d" and "d \<le> totalDays"
  defines "r \<equiv> fill_day subjs totalDays (start_day h d st)"
  assumes empty: "subjects (dailySchedule (final r)) = []"
  shows "spent subjs (final r)"
proof -
  have "0 \<le> h" using assms(3) by simp
  from takes_fill_day [OF this, of subjs totalDays d st]
  have "length (subjects (dailySchedule (final r))) = length (exactTakes (final r))"
    and rd: "remainingDailyHours (final r) = h - sum_list (exactTakes (final r))"
    unfolding r_def by (metis length_map)+
  with empty have "remainingDailyHours (final r) = h" by simp
  with assms(3) have nd: "exit r \<noteq> DailyHoursSpent"
    using fill_day_exit [of subjs totalDays "start_day h d st"] by (auto simp: r_def)
  show ?thesis
  proof (cases "length subjs = 1")
    case True
    from single_subject_empty [OF True, where start = "start_day h d st" and totalDays = totalDays]
      nd empty
    show ?thesis by (simp add: r_def)
  next
    case False
    with assms(2) have "2 \<le> length subjs"
      by (cases subjs) (auto simp: Suc_le_eq)
    then have "(2::rat) \<le> of_nat (length subjs)"
      by (metis of_nat_le_iff of_nat_numeral)
    with assms(4) have h18: "h \<le> 18 * of_nat (length subjs)" by simp
    from nd exit_cases [of r] consider "exit r = AllSubjectsExhausted" | "exit r = SafetyValve"
      by blast
    then show ?thesis
    proof cases
      case 1
      then have "allSubjectsExhausted subjs (final r)"
        using fill_day_exit [of subjs totalDays "start_day h d st"] by (simp add: r_def)
      then show ?thesis by (rule exhausted_spent)
    next
      case 2
      then show ?thesis
        using valve_only_when_spent [OF assms(1,2) h18 assms(5,6,7)] by (simp add: r_def)
    qed
  qed
qed

text \<open>
  With at most 18 hours a day for each subject (so always with two subjects or more) and
  no subject named \<^verbatim>\<open>__proto__\<close>, the safety valve is not taken.
\<close>

lemma safety_valve_not_taken:
  assumes v: "valid_input subjs h totalDays"
    and h18: "h \<le> 18 * of_nat (length subjs)"
    and ord: "''__proto__'' \<notin> set subjs"
  shows "\<forall>r\<in>set (dayRuns (runPlan subjs h totalDays)). exit r \<noteq> SafetyValve"
proof -
  have dist: "distinct subjs" and ne: "subjs \<noteq> []" and h: "0 \<le> h"
    using v by (simp_all add: valid_input_def)
  define Q where "Q = (\<lambda>(d::nat) (R::plan_run). budgets_ok subjs (loopState R) \<and>
      cursor_ok subjs h totalDays (loopState R) \<and> day (dailySchedule (loopState R)) < d \<and>
      (\<forall>r\<in>set (dayRuns R). exit r \<noteq> SafetyValve))"
  have "Q (Suc totalDays) (runPlan subjs h totalDays)"
    unfolding runPlan_def
  proof (rule for_days_upt)
    show "Q 1 \<lparr>schedule = [], loopState = initialState subjs h totalDays, dayRuns = []\<rparr>"
      using h ord by (simp add: Q_def budgets_ok_initialState cursor_ok_initialState)
        (simp add: initialState_def)
    show "1 \<le> Suc totalDays" by simp
  next
    fix R d
    assume Q: "Q d R" and d: "1 \<le> d" "d < Suc totalDays"
    let ?r = "fill_day subjs totalDays (start_day h d (loopState R))"
    from Q have ok: "budgets_ok subjs (loopState R)"
      and cur: "cursor_ok subjs h totalDays (loopState R)"
      and day: "day (dailySchedule (loopState R)) < d"
      and nov: "\<forall>r\<in>set (dayRuns R). exit r \<noteq> SafetyValve"
      by (simp_all add: Q_def)
    from d have dle: "d \<le> totalDays" by simp
    note f = cursor_fill_day [OF dist ne cur day]
    note b = budget_fill_day [OF dist ne h ok, of totalDays d]
    have "exit ?r \<noteq> SafetyValve"
    proof
      assume valve: "exit ?r = SafetyValve"
      then have "spent subjs (final ?r)"
        using valve_only_when_spent [OF dist ne h18 cur day dle] by simp
      with b(1) have "allSubjectsExhausted subjs (final ?r)"
        by (rule spent_exhausted)
      with valve show False
        using fill_day_exit [of subjs totalDays "start_day h d (loopState R)"] by simp
    qed
    with f b(1) nov show "Q (Suc d) (run_day subjs h totalDays d R)"
      by (simp add: Q_def)
  qed
  then show ?thesis by (simp add: Q_def)
qed

text \<open>
  Claim C6. On a valid input the schedule has at most \<open>totalDays\<close> DayPlans, their day
  indices are strictly increasing and are exactly \<open>1, 2, \<dots>, k\<close> for the length \<open>k\<close> of the
  schedule (so every dropped day comes after every pushed day), and no DayPlan has an
  empty list of allocations.
\<close>

theorem day_index_structure:
  assumes v: "valid_input subjs hoursPerDay totalDays"
  shows "length (calculateStudyPlan subjs hoursPerDay totalDays) \<le> totalDays \<and>
         sorted_wrt (<) (map day (calculateStudyPlan subjs hoursPerDay totalDays)) \<and>
         map day (calculateStudyPlan subjs hoursPerDay totalDays) =
           [1..<Suc (length (calculateStudyPlan subjs hoursPerDay totalDays))] \<and>
         (\<forall>p\<in>set (calculateStudyPlan subjs hoursPerDay totalDays). subjects p \<noteq> [])"
proof -
  let ?h = hoursPerDay
  have dist: "distinct subjs" and ne: "subjs \<noteq> []" and h: "0 < ?h" and h24: "?h \<le> 24"
    using v by (simp_all add: valid_input_def)
  define Q where "Q = (\<lambda>(d::nat) (R::plan_run).
      cursor_ok subjs ?h totalDays (loopState R) \<and> day (dailySchedule (loopState R)) < d \<and>
      map day (schedule R) = [1..<Suc (length (schedule R))] \<and>
      (\<forall>p\<in>set (schedule R). subjects p \<noteq> []) \<and>
      length (schedule R) < d \<and>
      (Suc (length (schedule R)) = d \<or> spent subjs (loopState R)))"
  have "Q (Suc totalDays) (runPlan subjs ?h totalDays)"
    unfolding runPlan_def
  proof (rule for_days_upt)
    show "Q 1 \<lparr>schedule = [], loopState = initialState subjs ?h totalDays, dayRuns = []\<rparr>"
      by (simp add: Q_def cursor_ok_initialState) (simp add: initialState_def)
    show "1 \<le> Suc totalDays" by simp
  next
    fix R d
    assume Q: "Q d R" and d: "1 \<le> d" "d < Suc totalDays"
    let ?st = "loopState R"
    let ?r = "fill_day subjs totalDays (start_day ?h d ?st)"
    let ?S = "schedule R"
    from Q have cur: "cursor_ok subjs ?h totalDays ?st"
      and day: "day (dailySchedule ?st) < d"
      and days: "map day ?S = [1..<Suc (length ?S)]"
      and nonempty: "\<forall>p\<in>set ?S. subjects p \<noteq> []"
      and len: "length ?S < d"
      and live: "Suc (length ?S) = d \<or> spent subjs ?st"
      by (simp_all add: Q_def)
    note f = cursor_fill_day [OF dist ne cur day]
    have dle: "d \<le> totalDays" using d by simp
    show "Q (Suc d) (run_day subjs ?h totalDays d R)"
    proof (cases "subjects (dailySchedule (final ?r)) = []")
      case True
      then have "spent subjs (final ?r)"
        using empty_day_spent [OF dist ne h h24 cur day dle] by simp
      with True f days nonempty len show ?thesis
        by (simp add: Q_def push_day_def)
    next
      case False
      then have "\<not> spent subjs ?st"
        using dead_day [OF ne, of ?st totalDays ?h d] by blast
      with live have "Suc (length ?S) = d" by simp
      with False f days nonempty show ?thesis
        by (simp add: Q_def push_day_def)
    qed
  qed
  then have days: "map day (calculateStudyPlan subjs ?h totalDays) =
        [1..<Suc (length (calculateStudyPlan subjs ?h totalDays))]"
    and nonempty: "\<forall>p\<in>set (calculateStudyPlan subjs ?h totalDays). subjects p \<noteq> []"
    and len: "length (calculateStudyPlan subjs ?h totalDays) \<le> totalDays"
    by (simp_all add: Q_def calculateStudyPlan_def)
  have "sorted_wrt (<) [1..<Suc (length (calculateStudyPlan subjs ?h totalDays))]"
    by (rule sorted_wrt_upt)
  with days have "sorted_wrt (<) (map day (calculateStudyPlan subjs ?h totalDays))"
    by simp
  with days nonempty len show ?thesis by blast
qed

text \<open>
  A run in which a day is dropped: the second subject is never given a session, the
  first has used its three hours after two days, and the third day stays empty.
\<close>

theorem day_index_structure_witness:
  "valid_input [''A'', ''__proto__''] 2 3 \<and>
   length (calculateStudyPlan [''A'', ''__proto__''] 2 3) = 2 \<and>
   length (calculateStudyPlan [''A'', ''__proto__''] 2 3) \<le> 3 \<and>
   map day (calculateStudyPlan [''A'', ''__proto__''] 2 3) = [1, 2] \<and>
   list_all (\<lambda>p. subjects p \<noteq> []) (calculateStudyPlan [''A'', ''__proto__''] 2 3)"
proof -
  have v: "valid_input [''A'', ''__proto__''] 2 3"
    by code_simp
  have l: "length (calculateStudyPlan [''A'', ''__proto__''] 2 3) = 2"
    by code_simp
  from day_index_structure [OF v] l v show ?thesis
    by (simp add: list_all_iff upt_rec)
qed

section \<open>Conservation and equal shares when the safety valve is not taken\<close>

text \<open>Both are stated for subject names other than \<^verbatim>\<open>__proto__\<close>.\<close>

lemma recordedHours_push_day:
  "recordedHours (push_day st sched) =
     recordedHours sched @ map hours (subjects (dailySchedule st))"
  by (simp add: recordedHours_def push_day_def)

lemma recordedHoursOf_push_day:
  "recordedHoursOf s (push_day st sched) =
     recordedHoursOf s sched @ map hours (filter (\<lambda>a. name a = s) (subjects (dailySchedule st)))"
  by (simp add: recordedHoursOf_def push_day_def)

lemma owed_idx [simp]: "owed s (st\<lparr>subjectIndex := i\<rparr>) = owed s st"
  by (simp add: owed_def)

lemma takesOf_idx [simp]: "takesOf s (st\<lparr>subjectIndex := i\<rparr>) = takesOf s st"
  by (simp add: takesOf_def)

text \<open>
  Within a day, for one subject: what it is owed falls by its takes, and its recorded
  entries are the roundings of its takes.
\<close>

lemma share_session:
  assumes P: "length (subjects (dailySchedule st)) = length (exactTakes st) \<and>
              owed s st + sum_list (takesOf s st) = c \<and>
              map hours (filter (\<lambda>a. name a = s) (subjects (dailySchedule st))) =
                map toFixed2 (takesOf s st) \<and>
              (\<forall>t\<in>set (takesOf s st). 0 \<le> t)"
    and rd: "0 < remainingDailyHours st"
  shows "length (subjects (dailySchedule (session subjs st))) = length (exactTakes (session subjs st)) \<and>
         owed s (session subjs st) + sum_list (takesOf s (session subjs st)) = c \<and>
         map hours (filter (\<lambda>a. name a = s) (subjects (dailySchedule (session subjs st)))) =
           map toFixed2 (takesOf s (session subjs st)) \<and>
         (\<forall>t\<in>set (takesOf s (session subjs st)). 0 \<le> t)"
proof (cases "num_gt0 (remainingOf st (currentSubject subjs (subjectIndex st)))")
  case False
  with P show ?thesis by (simp add: session_skip)
next
  case True
  let ?c = "currentSubject subjs (subjectIndex st)"
  from True obtain r where r: "remainingOf st ?c = Some r" and rpos: "0 < r"
    by (auto simp: num_gt0_def split: option.splits)
  let ?t = "min (remainingDailyHours st) (min r 2)"
  have t: "0 \<le> ?t" using rd rpos by simp
  note s = session_allocate [OF r rpos]
  have subj: "subjects (dailySchedule (session subjs st)) =
        subjects (dailySchedule st) @ [\<lparr>name = ?c, hours = toFixed2 ?t\<rparr>]"
    and takes: "exactTakes (session subjs st) = exactTakes st @ [?t]"
    and rem: "remainingOf (session subjs st) = (remainingOf st)(?c \<mapsto> r - ?t)"
    by (simp_all add: s remainingOf_allocate [OF r])
  from P have len: "length (subjects (dailySchedule st)) = length (exactTakes st)" by simp
  have tk: "takesOf s (session subjs st) = takesOf s st @ (if ?c = s then [?t] else [])"
    by (simp add: takesOf_def subj takes len)
  have ow: "owed s (session subjs st) = (if ?c = s then r - ?t else owed s st)"
    by (simp add: owed_def rem)
  have ow0: "?c = s \<Longrightarrow> owed s st = r"
    using r by (simp add: owed_def)
  from P t ow0 show ?thesis
    unfolding tk ow subj takes by (auto simp: len)
qed

lemma share_fill_day:
  fixes subjs :: "string list" and h :: rat and st :: loop_state and totalDays d :: nat
  defines "r \<equiv> fill_day subjs totalDays (start_day h d st)"
  shows "owed s (final r) + sum_list (takesOf s (final r)) = owed s st \<and>
         map hours (filter (\<lambda>a. name a = s) (subjects (dailySchedule (final r)))) =
           map toFixed2 (takesOf s (final r)) \<and>
         (\<forall>t\<in>set (takesOf s (final r)). 0 \<le> t)"
proof -
  have "length (subjects (dailySchedule (final r))) = length (exactTakes (final r)) \<and>
        owed s (final r) + sum_list (takesOf s (final r)) = owed s st \<and>
        map hours (filter (\<lambda>a. name a = s) (subjects (dailySchedule (final r)))) =
          map toFixed2 (takesOf s (final r)) \<and>
        (\<forall>t\<in>set (takesOf s (final r)). 0 \<le> t)"
    unfolding r_def
  proof (rule fill_day_final)
    show "length (subjects (dailySchedule (start_day h d st))) = length (exactTakes (start_day h d st)) \<and>
        owed s (start_day h d st) + sum_list (takesOf s (start_day h d st)) = owed s st \<and>
        map hours (filter (\<lambda>a. name a = s) (subjects (dailySchedule (start_day h d st)))) =
          map toFixed2 (takesOf s (start_day h d st)) \<and>
        (\<forall>t\<in>set (takesOf s (start_day h d st)). 0 \<le> t)"
      by (simp add: owed_def takesOf_def)
  qed (rule share_session)
  then show ?thesis by simp
qed

text \<open>The whole run: recorded hours against exact takes, overall and for each subject.\<close>

lemma shares_run:
  fixes totalDays :: nat
  assumes "distinct subjs" and "subjs \<noteq> []" and "0 \<le> h" and "''__proto__'' \<notin> set subjs"
  defines "R \<equiv> runPlan subjs h totalDays"
  shows "recordedHours (schedule R) = map toFixed2 (allTakes (dayRuns R))"
    and "\<forall>t\<in>set (allTakes (dayRuns R)). 0 \<le> t"
    and "sum_list (allTakes (dayRuns R)) + budget subjs (loopState R)
           = h * of_nat totalDays"
    and "recordedHoursOf s (schedule R) = map toFixed2 (allTakesOf s (dayRuns R))"
    and "\<forall>t\<in>set (allTakesOf s (dayRuns R)). 0 \<le> t"
    and "s \<in> set subjs \<Longrightarrow>
           sum_list (allTakesOf s (dayRuns R)) + owed s (loopState R)
             = hoursPerSubject subjs h totalDays"
proof -
  define Q where "Q = (\<lambda>R::plan_run. budgets_ok subjs (loopState R) \<and>
      recordedHours (schedule R) = map toFixed2 (allTakes (dayRuns R)) \<and>
      (\<forall>t\<in>set (allTakes (dayRuns R)). 0 \<le> t) \<and>
      sum_list (allTakes (dayRuns R)) + budget subjs (loopState R)
        = budget subjs (initialState subjs h totalDays) \<and>
      recordedHoursOf s (schedule R) = map toFixed2 (allTakesOf s (dayRuns R)) \<and>
      (\<forall>t\<in>set (allTakesOf s (dayRuns R)). 0 \<le> t) \<and>
      sum_list (allTakesOf s (dayRuns R)) + owed s (loopState R)
        = owed s (initialState subjs h totalDays))"
  have "Q R"
    unfolding R_def runPlan_def
  proof (rule for_days_invariant)
    show "Q \<lparr>schedule = [], loopState = initialState subjs h totalDays, dayRuns = []\<rparr>"
      using assms(3,4)
      by (simp add: Q_def budgets_ok_initialState recordedHours_def recordedHoursOf_def
          allTakes_def allTakesOf_def)
  next
    fix R d
    assume Q: "Q R"
    let ?st = "loopState R"
    let ?r = "fill_day subjs totalDays (start_day h d ?st)"
    from Q have ok: "budgets_ok subjs ?st" by (simp add: Q_def)
    note b = budget_fill_day [OF assms(1,2,3) ok, of totalDays d]
    note t = takes_fill_day [OF assms(3), of subjs totalDays d ?st]
    note sh = share_fill_day [of s subjs totalDays h d ?st]
    from t have rec: "map hours (subjects (dailySchedule (final ?r))) =
          map toFixed2 (exactTakes (final ?r))"
      and rd: "remainingDailyHours (final ?r) = h - sum_list (exactTakes (final ?r))"
      and pos: "\<forall>t\<in>set (exactTakes (final ?r)). 0 \<le> t"
      by auto
    from b(4) rd have bud: "sum_list (exactTakes (final ?r)) + budget subjs (final ?r)
        = budget subjs ?st"
      by simp
    from Q b(1) rec pos bud sh show "Q (run_day subjs h totalDays d R)"
      by (simp add: Q_def recordedHours_push_day recordedHoursOf_push_day
          allTakes_def allTakesOf_def)
  qed
  moreover have "budget subjs (initialState subjs h totalDays) = h * of_nat totalDays"
    using assms(2) by (simp add: budget_initialState [OF assms(4)] hoursPerSubject_def)
  moreover have "s \<in> set subjs \<Longrightarrow>
      owed s (initialState subjs h totalDays) = hoursPerSubject subjs h totalDays"
    using assms(4) by (auto simp: owed_def remainingOf_initialState)
  ultimately show "recordedHours (schedule R) = map toFixed2 (allTakes (dayRuns R))"
    and "\<forall>t\<in>set (allTakes (dayRuns R)). 0 \<le> t"
    and "sum_list (allTakes (dayRuns R)) + budget subjs (loopState R)
           = h * of_nat totalDays"
    and "recordedHoursOf s (schedule R) = map toFixed2 (allTakesOf s (dayRuns R))"
    and "\<forall>t\<in>set (allTakesOf s (dayRuns R)). 0 \<le> t"
    and "s \<in> set subjs \<Longrightarrow>
           sum_list (allTakesOf s (dayRuns R)) + owed s (loopState R)
             = hoursPerSubject subjs h totalDays"
    by (simp_all add: Q_def)
qed

text \<open>
  Conservation holds, within half the tolerance of claim C1, on every valid input on
  which the safety valve is not taken.
\<close>

lemma conservation_unless_valve:
  assumes v: "valid_input subjs h totalDays" and ord: "''__proto__'' \<notin> set subjs"
    and nov: "\<forall>r\<in>set (dayRuns (runPlan subjs h totalDays)). exit r \<noteq> SafetyValve"
  shows "\<bar>sum_list (recordedHours (calculateStudyPlan subjs h totalDays)) - h * of_nat totalDays\<bar>
           \<le> of_nat (length (recordedHours (calculateStudyPlan subjs h totalDays))) / 200"
proof -
  have d: "distinct subjs" and ne: "subjs \<noteq> []" and h: "0 \<le> h"
    using v by (simp_all add: valid_input_def)
  let ?R = "runPlan subjs h totalDays"
  let ?ts = "allTakes (dayRuns ?R)"
  note sh = shares_run [OF d ne h ord, where totalDays = totalDays]
  have zero: "\<forall>s\<in>set subjs. remainingOf (loopState ?R) s = Some 0"
    using budgets_used_up [OF d ne h ord nov] .
  have "map (\<lambda>s. case remainingOf (loopState ?R) s of None \<Rightarrow> 0 | Some r \<Rightarrow> r) subjs
          = map (\<lambda>s. 0) subjs"
    using zero by (intro map_cong) simp_all
  then have "budget subjs (loopState ?R) = sum_list (map (\<lambda>s. 0) subjs)"
    by (simp only: budget_def)
  then have "budget subjs (loopState ?R) = 0" by simp
  with sh(3) have sum: "sum_list ?ts = h * of_nat totalDays" by simp
  have rec: "recordedHours (calculateStudyPlan subjs h totalDays) = map toFixed2 ?ts"
    using sh(1) by (simp add: calculateStudyPlan_def)
  from sum_toFixed2_upper [OF sh(2)] sum_toFixed2_lower [OF sh(2)]
  have "\<bar>sum_list (map toFixed2 ?ts) - sum_list ?ts\<bar> \<le> of_nat (length ?ts) / 200"
    by linarith
  then show ?thesis
    unfolding rec sum [symmetric] length_map .
qed

text \<open>
  So does the equal share of every subject, within half the tolerance of claim C2 counted
  on the subject's own entries.
\<close>

lemma equal_share_unless_valve:
  assumes v: "valid_input subjs h totalDays" and ord: "''__proto__'' \<notin> set subjs"
    and nov: "\<forall>r\<in>set (dayRuns (runPlan subjs h totalDays)). exit r \<noteq> SafetyValve"
    and s: "s \<in> set subjs"
  shows "\<bar>sum_list (recordedHoursOf s (calculateStudyPlan subjs h totalDays))
            - h * of_nat totalDays / of_nat (length subjs)\<bar>
           \<le> of_nat (length (recordedHoursOf s (calculateStudyPlan subjs h totalDays))) / 200"
proof -
  have d: "distinct subjs" and ne: "subjs \<noteq> []" and h: "0 \<le> h"
    using v by (simp_all add: valid_input_def)
  let ?R = "runPlan subjs h totalDays"
  let ?ts = "allTakesOf s (dayRuns ?R)"
  note sh4 = shares_run(4) [OF d ne h ord, where totalDays = totalDays and s = s]
  note sh5 = shares_run(5) [OF d ne h ord, where totalDays = totalDays and s = s]
  note sh6 = shares_run(6) [OF d ne h ord, where totalDays = totalDays and s = s]
  have "remainingOf (loopState ?R) s = Some 0"
    using budgets_used_up [OF d ne h ord nov] s by blast
  then have "owed s (loopState ?R) = 0" by (simp add: owed_def)
  with sh6 [OF s] have sum: "sum_list ?ts = h * of_nat totalDays / of_nat (length subjs)"
    by (simp add: hoursPerSubject_def)
  have rec: "recordedHoursOf s (calculateStudyPlan subjs h totalDays) = map toFixed2 ?ts"
    using sh4 by (simp add: calculateStudyPlan_def)
  from sum_toFixed2_upper [OF sh5] sum_toFixed2_lower [OF sh5]
  have "\<bar>sum_list (map toFixed2 ?ts) - sum_list ?ts\<bar> \<le> of_nat (length ?ts) / 200"
    by linarith
  then show ?thesis
    unfolding rec sum [symmetric] length_map .
qed

section \<open>The empty subject list\<close>

lemma session_no_subjects:
  "remainingHours st = Map.empty \<Longrightarrow> session [] st = st\<lparr>subjectIndex := subjectIndex st + 1\<rparr>"
  by (simp add: session_def remainingOf_def js_read_def)

lemma fill_day_no_subjects:
  assumes "remainingHours st = Map.empty"
  shows "fill_day [] totalDays st =
           (if 0 < remainingDailyHours st
            then \<lparr>final = st\<lparr>subjectIndex := subjectIndex st + 1\<rparr>, exit = AllSubjectsExhausted,
                   steps = [st\<lparr>subjectIndex := subjectIndex st + 1\<rparr>]\<rparr>
            else \<lparr>final = st, exit = DailyHoursSpent, steps = []\<rparr>)"
  by (simp add: fill_day.simps [of "[]" totalDays st] session_no_subjects [OF assms]
      allSubjectsExhausted_def Let_def)

lemma for_days_no_subjects:
  assumes "remainingHours (loopState R) = Map.empty" and "schedule R = []"
  shows "schedule (for_days [] h totalDays ds R) = [] \<and>
         (0 < h \<longrightarrow> list_all (\<lambda>r. exit r = AllSubjectsExhausted \<and> length (steps r) = 1) (dayRuns R) \<longrightarrow>
            list_all (\<lambda>r. exit r = AllSubjectsExhausted \<and> length (steps r) = 1)
              (dayRuns (for_days [] h totalDays ds R)))"
  using assms
proof (induction ds arbitrary: R)
  case Nil
  then show ?case by simp
next
  case (Cons d ds)
  let ?R = "run_day [] h totalDays d R"
  have e: "remainingHours (start_day h d (loopState R)) = Map.empty"
    using Cons.prems(1) by (simp add: start_day_def)
  have s: "subjects (dailySchedule (start_day h d (loopState R))) = []"
    "remainingDailyHours (start_day h d (loopState R)) = h"
    by (simp_all add: start_day_def)
  have 1: "remainingHours (loopState ?R) = Map.empty"
    using e by (simp add: fill_day_no_subjects [OF e])
  have 2: "schedule ?R = []"
    using Cons.prems(2) s by (simp add: fill_day_no_subjects [OF e] push_day_def)
  have 4: "0 < h \<Longrightarrow> exit (fill_day [] totalDays (start_day h d (loopState R))) = AllSubjectsExhausted
     \<and> length (steps (fill_day [] totalDays (start_day h d (loopState R)))) = 1"
    using s by (simp add: fill_day_no_subjects [OF e])
  from Cons.IH [OF 1 2] 4 show ?case by auto
qed

lemma runPlan_no_subjects:
  "schedule (runPlan [] hoursPerDay totalDays) = [] \<and>
   (0 < hoursPerDay \<longrightarrow>
      list_all (\<lambda>r. exit r = AllSubjectsExhausted \<and> length (steps r) = 1)
        (dayRuns (runPlan [] hoursPerDay totalDays)))"
proof -
  let ?R = "\<lparr>schedule = [], loopState = initialState [] hoursPerDay totalDays, dayRuns = []\<rparr>"
  have "remainingHours (loopState ?R) = Map.empty" "schedule ?R = []"
    by (simp_all add: initialState_def initialHours_def)
  from for_days_no_subjects [OF this, of hoursPerDay totalDays "[1..<Suc totalDays]"]
  show ?thesis
    by (simp add: runPlan_def)
qed

text \<open>
  Claim C9. On the empty subject list the scheduler returns the empty schedule, for every
  \<open>hoursPerDay\<close> and every number of days: each of the \<open>totalDays\<close> day loops, when it is
  entered at all (\<open>0 < hoursPerDay\<close>), makes one iteration and leaves through the
  all-subjects-exhausted \<^verbatim>\<open>break\<close>, and no day is pushed.
\<close>

theorem empty_subject_list:
  "calculateStudyPlan [] hoursPerDay totalDays = [] \<and>
   length (dayRuns (runPlan [] hoursPerDay totalDays)) = totalDays \<and>
   (0 < hoursPerDay \<longrightarrow>
      list_all (\<lambda>r. exit r = AllSubjectsExhausted \<and> length (steps r) = 1)
        (dayRuns (runPlan [] hoursPerDay totalDays)))"
  using runPlan_no_subjects [of hoursPerDay totalDays]
  by (simp add: calculateStudyPlan_def runPlan_def length_dayRuns_for_days)

theorem empty_subject_list_witness:
  "(0::rat) < 4 \<and> calculateStudyPlan [] 4 3 = [] \<and> length (dayRuns (runPlan [] 4 3)) = 3 \<and>
   list_all (\<lambda>r. exit r = AllSubjectsExhausted \<and> length (steps r) = 1) (dayRuns (runPlan [] 4 3))"
  using empty_subject_list [of 4 3] by simp

section \<open>The validator and the parser\<close>

lemma validateInputs_Valid:
  "validateInputs subjectsValue hoursPerDay daysLeft = Valid \<longleftrightarrow>
     subjectsValue \<noteq> [] \<and>
     (\<exists>h d. hoursPerDay = Some h \<and> daysLeft = Some d \<and> 0 < h \<and> h \<le> 24 \<and> 0 < d)"
  by (auto simp: validateInputs_def js_not_def js_le0_def js_gt24_def split: option.splits)

text \<open>
  Claim C10. The subjects texts \<^verbatim>\<open>","\<close> and \<^verbatim>\<open>", ,"\<close> are not empty, so
  \<^verbatim>\<open>validateInputs\<close> accepts them with any valid hours and days; \<^verbatim>\<open>parseSubjects\<close>
  maps both to the empty list, and \<^verbatim>\<open>generateStudyPlan\<close> calls the scheduler on it.
\<close>

theorem validator_gap:
  assumes "0 < h" and "h \<le> 24" and "0 < d"
  shows "'','' \<noteq> [] \<and> trim '','' = '','' \<and>
         validateInputs '','' (Some h) (Some d) = Valid \<and>
         parseSubjects '','' = [] \<and>
         generateStudyPlan '','' (Some h) (Some d) = Inr (calculateStudyPlan [] h (nat d)) \<and>
         '', ,'' \<noteq> [] \<and> trim '', ,'' = '', ,'' \<and>
         validateInputs '', ,'' (Some h) (Some d) = Valid \<and>
         parseSubjects '', ,'' = [] \<and>
         generateStudyPlan '', ,'' (Some h) (Some d) = Inr (calculateStudyPlan [] h (nat d))"
proof -
  have t: "trim '','' = '',''" "trim '', ,'' = '', ,''"
    by (simp_all add: trim_def is_whitespace_def)
  have p: "parseSubjects '','' = []" "parseSubjects '', ,'' = []"
    by (simp_all add: parseSubjects_def trim_def is_whitespace_def)
  have v: "validateInputs '','' (Some h) (Some d) = Valid"
    "validateInputs '', ,'' (Some h) (Some d) = Valid"
    using assms by (simp_all add: validateInputs_Valid)
  show ?thesis
    using t p v by (simp add: generateStudyPlan_def)
qed

theorem validator_gap_witness:
  "(0::rat) < 4 \<and> (4::rat) \<le> 24 \<and> (0::int) < 3 \<and>
   validateInputs '','' (Some 4) (Some 3) = Valid \<and> parseSubjects '','' = [] \<and>
   generateStudyPlan '','' (Some 4) (Some 3) = Inr (calculateStudyPlan [] 4 3) \<and>
   generateStudyPlan '', ,'' (Some 4) (Some 3) = Inr []"
  using validator_gap [of 4 3] runPlan_no_subjects [of 4 3] by (simp add: calculateStudyPlan_def)

end
